theory Spec2Isabelle
  imports Complex_Main "HOL-Library.Multiset"
begin

section \<open>Run-time values\<close>

text \<open>
  The values that can sit in the \<open>variables\<close> of a GraphQL request: the JavaScript
  primitives, binary handles (\<open>File\<close> or \<open>Blob\<close> instances, with an opaque payload of
  type \<open>'f\<close>), arrays and plain objects. An object is the list of its own enumerable
  string-keyed properties in the order of their creation (insertion order); arrays are
  dense. Numbers are only ever copied or tested for truthiness, so they are reals
  (\<open>NaN\<close> and the infinities are left out).
\<close>

datatype 'f jsval =
    JUndefined
  | JNull
  | JBool bool
  | JNum real
  | JStr string
  | JFile 'f
  | JArr "'f jsval list"
  | JObj "(string \<times> 'f jsval) list"

text \<open>\<open>interface FileEntry { path: string; file: File | Blob }\<close>\<close>

record 'f FileEntry =
  entry_path :: string
  entry_file :: 'f

text \<open>The errors that the modelled code can meet.\<close>

datatype zod_issue = too_small | too_big | custom string

datatype js_error = SyntaxError | TypeError | Error string | ZodError "zod_issue list"

subsection \<open>Strings\<close>

text \<open>\<open>String(n)\<close> and \<open>`${n}`\<close> for an array index \<open>n\<close>: decimal, no leading zeros.\<close>

definition digit_char :: "nat \<Rightarrow> char" where
  "digit_char d = ''0123456789'' ! d"

fun decimal :: "nat \<Rightarrow> string" where
  "decimal n =
     (if n < 10 then [digit_char n] else decimal (n div 10) @ [digit_char (n mod 10)])"

declare decimal.simps [simp del]

text \<open>The template literal \<open>`${currentPath}.${segment}`\<close>.\<close>

definition dotted :: "string \<Rightarrow> string \<Rightarrow> string" where
  "dotted currentPath segment = currentPath @ ''.'' @ segment"

text \<open>\<open>String.prototype.toLowerCase\<close> on the ASCII letters.\<close>

definition lower_char :: "char \<Rightarrow> char" where
  "lower_char c =
     (case map_of (zip ''ABCDEFGHIJKLMNOPQRSTUVWXYZ'' ''abcdefghijklmnopqrstuvwxyz'') c of
        Some d \<Rightarrow> d
      | None \<Rightarrow> c)"

definition toLowerCase :: "string \<Rightarrow> string" where
  "toLowerCase s = map lower_char s"

subsection \<open>Objects as property lists\<close>

text \<open>
  \<open>Object.keys\<close>, \<open>Object.values\<close> and \<open>Object.entries\<close> list the own properties of
  an object in the order of \<open>OrdinaryOwnPropertyKeys\<close>: first the keys that are array
  indices (the decimal string, without leading zeros, of an integer below \<open>2^32 - 1\<close>),
  in ascending numeric order, then the other keys in the order of their creation.
\<close>

definition digit_value :: "char \<Rightarrow> nat option" where
  "digit_value c = map_of (zip ''0123456789'' [0, 1, 2, 3, 4, 5, 6, 7, 8, 9]) c"

fun parse_digits :: "nat \<Rightarrow> string \<Rightarrow> nat option" where
  "parse_digits n [] = Some n"
| "parse_digits n (c # cs) =
     (case digit_value c of None \<Rightarrow> None | Some d \<Rightarrow> parse_digits (10 * n + d) cs)"

definition index_of_key :: "string \<Rightarrow> nat option" where
  "index_of_key key =
     (if key = [] then None
      else case parse_digits 0 key of
             None \<Rightarrow> None
           | Some n \<Rightarrow> if decimal n = key \<and> n < 4294967295 then Some n else None)"

definition is_array_index :: "string \<Rightarrow> bool" where
  "is_array_index key = (index_of_key key \<noteq> None)"

definition index_rank :: "string \<Rightarrow> nat" where
  "index_rank key = (case index_of_key key of Some n \<Rightarrow> n | None \<Rightarrow> 0)"

definition Object_entries :: "(string \<times> 'v) list \<Rightarrow> (string \<times> 'v) list" where
  "Object_entries props =
     sort_key (\<lambda>(k, v). index_rank k) (filter (\<lambda>(k, v). is_array_index k) props)
     @ filter (\<lambda>(k, v). \<not> is_array_index k) props"

definition Object_values :: "(string \<times> 'v) list \<Rightarrow> 'v list" where
  "Object_values props = map snd (Object_entries props)"

text \<open>
  An object spread \<open>{...a, ...b}\<close> defines each property it copies: it overwrites the
  property in place, or adds it at the end.
\<close>

fun define_property :: "(string \<times> 'v) list \<Rightarrow> string \<Rightarrow> 'v \<Rightarrow> (string \<times> 'v) list" where
  "define_property [] key v = [(key, v)]"
| "define_property ((k, w) # rest) key v =
     (if k = key then (k, v) # rest else (k, w) # define_property rest key v)"

text \<open>
  The statement \<open>obj[key] = v\<close> on an object made by \<open>{}\<close> and filled by such
  statements only. It overwrites or adds an own property, but for the key
  \<open>__proto__\<close>: that key reaches the setter inherited from \<open>Object.prototype\<close>, which
  changes the prototype of \<open>obj\<close> (or does nothing) and creates no own property. The
  prototype is not kept: neither \<open>Object.entries\<close> nor \<open>JSON.stringify\<close> looks at it.
\<close>

definition set_property :: "(string \<times> 'v) list \<Rightarrow> string \<Rightarrow> 'v \<Rightarrow> (string \<times> 'v) list" where
  "set_property obj key v = (if key = ''__proto__'' then obj else define_property obj key v)"

text \<open>\<open>delete obj[key]\<close>\<close>

definition delete_key :: "string \<Rightarrow> (string \<times> 'v) list \<Rightarrow> (string \<times> 'v) list" where
  "delete_key key obj = filter (\<lambda>(k, v). k \<noteq> key) obj"

text \<open>\<open>Object.entries\<close> of an array: the index strings paired with the elements.\<close>

definition Object_entries_array :: "'a list \<Rightarrow> (string \<times> 'a) list" where
  "Object_entries_array xs = zip (map decimal [0..<length xs]) xs"

text \<open>
  A value is well formed when no object in it lists a key twice, as is true of every
  JavaScript object.
\<close>

fun distinct_keys :: "'f jsval \<Rightarrow> bool" where
  "distinct_keys (JArr xs) = list_all distinct_keys xs"
| "distinct_keys (JObj es) = (distinct (map fst es) \<and> list_all distinct_keys (map snd es))"
| "distinct_keys _ = True"

section \<open>The file-upload middleware (\<open>middleware/file-upload.ts\<close>)\<close>

subsection \<open>\<open>isFile\<close> and \<open>hasFiles\<close>\<close>

text \<open>
  \<open>isFile\<close> asks whether the value is an instance of \<open>File\<close> or of \<open>Blob\<close>, where
  the platform defines them; those instances are the \<open>JFile\<close> nodes.
\<close>

definition isFile :: "'f jsval \<Rightarrow> bool" where
  "isFile v = (case v of JFile _ \<Rightarrow> True | _ \<Rightarrow> False)"

text \<open>JavaScript truthiness, for \<open>!variables\<close>.\<close>

fun falsy :: "'f jsval \<Rightarrow> bool" where
  "falsy JUndefined = True"
| "falsy JNull = True"
| "falsy (JBool b) = (\<not> b)"
| "falsy (JNum n) = (n = 0)"
| "falsy (JStr s) = (s = [])"
| "falsy _ = False"

text \<open>The inner closure \<open>check\<close> of \<open>hasFiles\<close>; \<open>Array.prototype.some\<close> is \<open>list_ex\<close>.\<close>

function check :: "'f jsval \<Rightarrow> bool" where
  "check (JFile f) = True"
| "check (JArr xs) = list_ex check xs"
| "check (JObj props) = list_ex check (Object_values props)"
| "check JUndefined = False"
| "check JNull = False"
| "check (JBool b) = False"
| "check (JNum n) = False"
| "check (JStr s) = False"
  by pat_completeness auto
termination
proof (relation "measure size")
  fix props :: "(string \<times> 'f jsval) list" and x
  assume "x \<in> set (Object_values props)"
  then have "x \<in> snd ` set props"
    by (auto simp: Object_values_def Object_entries_def)
  then obtain k where "(k, x) \<in> set props"
    by auto
  then have "size x < Suc (size_list (size_prod (\<lambda>_. 0) size) props)"
    by (induction props) auto
  then show "(x, JObj props) \<in> measure size"
    by simp
qed (auto simp: less_Suc_eq_le size_list_estimation')

definition hasFiles :: "'f jsval \<Rightarrow> bool" where
  "hasFiles variables = (if falsy variables then False else check variables)"

subsection \<open>\<open>extractFiles\<close>\<close>

text \<open>
  The closure \<open>processValue\<close> pushes onto the captured array \<open>files\<close> while it rebuilds
  the value; the array is threaded through as \<open>fs\<close>. It tests for a file, then for an
  array, returns \<open>null\<close> and every non-object as it is, and rebuilds what is left, an
  object, key by key. \<open>processItems\<close> is the callback of
  \<open>value.map\<close> run over the elements with their index, \<open>processEntries\<close> the
  \<open>for (const [key, val] of Object.entries(value))\<close> loop filling \<open>result\<close> by
  \<open>result[key] = ...\<close>.
\<close>

function processValue ::
    "'f jsval \<Rightarrow> string \<Rightarrow> 'f FileEntry list \<Rightarrow> 'f jsval \<times> 'f FileEntry list"
  and processItems ::
    "'f jsval list \<Rightarrow> nat \<Rightarrow> string \<Rightarrow> 'f FileEntry list
      \<Rightarrow> 'f jsval list \<times> 'f FileEntry list"
  and processEntries ::
    "(string \<times> 'f jsval) list \<Rightarrow> string \<Rightarrow> (string \<times> 'f jsval) list
      \<Rightarrow> 'f FileEntry list \<Rightarrow> (string \<times> 'f jsval) list \<times> 'f FileEntry list"
where
  "processValue (JFile f) currentPath fs =
     (JNull, fs @ [\<lparr>entry_path = currentPath, entry_file = f\<rparr>])"
| "processValue (JArr items) currentPath fs =
     (let (items', fs') = processItems items 0 currentPath fs in (JArr items', fs'))"
| "processValue JUndefined currentPath fs = (JUndefined, fs)"
| "processValue JNull currentPath fs = (JNull, fs)"
| "processValue (JBool b) currentPath fs = (JBool b, fs)"
| "processValue (JNum n) currentPath fs = (JNum n, fs)"
| "processValue (JStr s) currentPath fs = (JStr s, fs)"
| "processValue (JObj props) currentPath fs =
     (let (result, fs') = processEntries (Object_entries props) currentPath [] fs
      in (JObj result, fs'))"
| "processItems [] index currentPath fs = ([], fs)"
| "processItems (item # rest) index currentPath fs =
     (let (item', fs') = processValue item (dotted currentPath (decimal index)) fs;
          (rest', fs'') = processItems rest (Suc index) currentPath fs'
      in (item' # rest', fs''))"
| "processEntries [] currentPath result fs = (result, fs)"
| "processEntries ((key, val) # rest) currentPath result fs =
     (let (val', fs') = processValue val (dotted currentPath key) fs
      in processEntries rest currentPath (set_property result key val') fs')"
  by pat_completeness auto
termination
proof (relation "measure (\<lambda>x. case x of
          Inl (v, p, fs) \<Rightarrow> size v
        | Inr (Inl (xs, i, p, fs)) \<Rightarrow> size_list size xs
        | Inr (Inr (es, p, r, fs)) \<Rightarrow> size_list (size_prod (\<lambda>_. 0) size) es)")
  fix props :: "(string \<times> 'f jsval) list" and currentPath :: string and fs :: "'f FileEntry list"
  have "mset (Object_entries props) = mset props"
    by (simp add: Object_entries_def case_prod_unfold flip: multiset_partition)
  then have "size_list (size_prod (\<lambda>_. 0) size) (Object_entries props)
           = size_list (size_prod (\<lambda>_. 0) size) props"
    by (metis size_list_conv_sum_list mset_map sum_mset_sum_list size_mset)
  then show "(Inr (Inr (Object_entries props, currentPath, [], fs)), Inl (JObj props, currentPath, fs))
      \<in> measure (\<lambda>x. case x of
          Inl (v, p, fs) \<Rightarrow> size v
        | Inr (Inl (xs, i, p, fs)) \<Rightarrow> size_list size xs
        | Inr (Inr (es, p, r, fs)) \<Rightarrow> size_list (size_prod (\<lambda>_. 0) size) es)"
    by simp
qed auto

record 'f extracted =
  cleanedVariables :: "'f jsval"
  files :: "'f FileEntry list"

definition extractFiles :: "'f jsval \<Rightarrow> string \<Rightarrow> 'f extracted" where
  "extractFiles variables rootPath =
     (let (cleaned, fs) = processValue variables rootPath []
      in \<lparr>cleanedVariables = cleaned, files = fs\<rparr>)"

subsection \<open>\<open>createMultipartFormData\<close>\<close>

text \<open>
  A \<open>FormData\<close> is the sequence of its \<open>append(name, value)\<close> calls, each with the
  value handed to it. \<open>JSON.stringify\<close> is the platform's; it is a parameter. Both
  loops run over \<open>Object.entries(files)\<close>, whose keys are the index strings already, so
  \<open>String(index)\<close> leaves them as they are.
\<close>

type_synonym 'f FormData = "(string \<times> 'f jsval) list"

definition FormData_append :: "'f FormData \<Rightarrow> string \<Rightarrow> 'f jsval \<Rightarrow> 'f FormData" where
  "FormData_append formData name v = formData @ [(name, v)]"

text \<open>The \<open>Record<string, string[]>\<close> called \<open>map\<close>, as the value \<open>JSON.stringify\<close> receives.\<close>

definition map_value :: "(string \<times> string list) list \<Rightarrow> 'f jsval" where
  "map_value m = JObj (map (\<lambda>(k, paths). (k, JArr (map JStr paths))) m)"

definition build_map :: "'f FileEntry list \<Rightarrow> (string \<times> string list) list" where
  "build_map fs =
     fold (\<lambda>(index, entry) m. set_property m index [entry_path entry])
       (Object_entries_array fs) []"

definition createMultipartFormData ::
    "('f jsval \<Rightarrow> string) \<Rightarrow> 'f jsval \<Rightarrow> 'f jsval \<Rightarrow> 'f FileEntry list \<Rightarrow> 'f FormData" where
  "createMultipartFormData JSON_stringify query variables fs =
     (let formData0 = [];
          formData1 = FormData_append formData0 ''query'' query;
          formData2 = FormData_append formData1 ''variables'' (JStr (JSON_stringify variables));
          m = build_map fs;
          formData3 = FormData_append formData2 ''map'' (JStr (JSON_stringify (map_value m)))
      in fold (\<lambda>(index, entry) formData. FormData_append formData index (JFile (entry_file entry)))
           (Object_entries_array fs) formData3)"

subsection \<open>The request and the middleware\<close>

text \<open>
  The request handed to a \<open>RequestMiddleware\<close>. \<open>variables\<close> is \<open>JUndefined\<close> when
  the caller passed none; the fields not named here (\<open>signal\<close> and the rest of
  \<open>RequestInit\<close>) are the record's extension; \<open>http_method\<close> is the field
  \<open>method\<close>. The headers are the \<open>Record<string, string>\<close> that the code casts
  them to, given by its entries in the order \<open>Object.keys\<close> enumerates them; the copy
  \<open>{ ...headers }\<close> has the same entries in the same order.
\<close>

datatype 'f body = BodyAbsent | BodyString string | BodyFormData "'f FormData" | BodyOther

record 'f request =
  url :: string
  http_method :: string
  headers :: "(string \<times> string) list"
  body :: "'f body"
  operationName :: "string option"
  variables :: "'f jsval"

text \<open>\<open>JSON.parse\<close> and \<open>JSON.stringify\<close> belong to the platform.\<close>

record 'f runtime =
  JSON_parse :: "string \<Rightarrow> js_error + 'f jsval"
  JSON_stringify :: "'f jsval \<Rightarrow> string"

text \<open>
  \<open>parsed.query\<close>: reading a property of \<open>null\<close> or \<open>undefined\<close> throws a
  \<open>TypeError\<close>; a value without that property gives \<open>undefined\<close>.
\<close>

fun get_query :: "'f jsval \<Rightarrow> js_error + 'f jsval" where
  "get_query JNull = Inl TypeError"
| "get_query JUndefined = Inl TypeError"
| "get_query (JObj props) =
     Inr (case map_of props ''query'' of Some v \<Rightarrow> v | None \<Rightarrow> JUndefined)"
| "get_query _ = Inr JUndefined"

text \<open>
  The loop \<open>for (const key of Object.keys(headers)) if (key.toLowerCase() ===
  'content-type') delete headers[key]\<close> over the copied headers.
\<close>

definition strip_content_type :: "(string \<times> string) list \<Rightarrow> (string \<times> string) list" where
  "strip_content_type hs =
     fold (\<lambda>key h. if toLowerCase key = ''content-type'' then delete_key key h else h)
       (map fst hs) hs"

definition createFileUploadMiddleware ::
    "'f runtime \<Rightarrow> (('f, 'z) request_scheme \<Rightarrow> js_error + ('f, 'z) request_scheme) option
      \<Rightarrow> ('f, 'z) request_scheme \<Rightarrow> js_error + ('f, 'z) request_scheme" where
  "createFileUploadMiddleware rt existingMiddleware request =
     (case (case existingMiddleware of None \<Rightarrow> Inr request | Some m \<Rightarrow> m request) of
        Inl err \<Rightarrow> Inl err
      | Inr processedRequest \<Rightarrow>
          if falsy (variables processedRequest) \<or> \<not> hasFiles (variables processedRequest)
          then Inr processedRequest
          else
            (case body processedRequest of
               BodyString s \<Rightarrow>
                 (case (case JSON_parse rt s of
                          Inl err \<Rightarrow> Inl err
                        | Inr parsed \<Rightarrow> get_query parsed) of
                    Inl err \<Rightarrow> Inr processedRequest
                  | Inr query \<Rightarrow>
                      (let ex = extractFiles (variables processedRequest) ''variables'';
                           formData =
                             createMultipartFormData (JSON_stringify rt) query
                               (cleanedVariables ex) (files ex);
                           hs = strip_content_type (headers processedRequest)
                       in Inr (processedRequest\<lparr>body := BodyFormData formData, headers := hs\<rparr>)))
             | _ \<Rightarrow> Inr processedRequest))"

subsection \<open>The earlier copy of the middleware\<close>

text \<open>
  The repository holds a second \<open>createFileUploadMiddleware\<close> (and a third, inlined as
  private methods of an earlier \<open>ApiClient\<close>) whose \<open>hasFiles\<close>, \<open>extractFiles\<close> and
  \<open>createMultipartFormData\<close> compute the same as above and whose header clean-up is
  \<open>delete headers['Content-Type']; delete headers['content-type']\<close>.
\<close>

definition delete_two_casings :: "(string \<times> string) list \<Rightarrow> (string \<times> string) list" where
  "delete_two_casings hs = delete_key ''content-type'' (delete_key ''Content-Type'' hs)"

definition createFileUploadMiddleware_copy ::
    "'f runtime \<Rightarrow> (('f, 'z) request_scheme \<Rightarrow> js_error + ('f, 'z) request_scheme) option
      \<Rightarrow> ('f, 'z) request_scheme \<Rightarrow> js_error + ('f, 'z) request_scheme" where
  "createFileUploadMiddleware_copy rt existingMiddleware request =
     (case (case existingMiddleware of None \<Rightarrow> Inr request | Some m \<Rightarrow> m request) of
        Inl err \<Rightarrow> Inl err
      | Inr processedRequest \<Rightarrow>
          if \<not> falsy (variables processedRequest) \<and> hasFiles (variables processedRequest)
          then
            (case body processedRequest of
               BodyString s \<Rightarrow>
                 (case (case JSON_parse rt s of
                          Inl err \<Rightarrow> Inl err
                        | Inr parsed \<Rightarrow> get_query parsed) of
                    Inl err \<Rightarrow> Inr processedRequest
                  | Inr query \<Rightarrow>
                      (let ex = extractFiles (variables processedRequest) ''variables'';
                           formData =
                             createMultipartFormData (JSON_stringify rt) query
                               (cleanedVariables ex) (files ex);
                           hs = delete_two_casings (headers processedRequest)
                       in Inr (processedRequest\<lparr>body := BodyFormData formData, headers := hs\<rparr>)))
             | _ \<Rightarrow> Inr processedRequest)
          else Inr processedRequest)"

section \<open>The client (\<open>api-client.ts\<close>)\<close>

subsection \<open>\<open>isValidApiVersion\<close>\<close>

text \<open>
  The regular expression \<open>/^\d{4}-(01|04|07|10)$/\<close> as a term, and a matcher for the
  constructs it uses: \<open>rx_match r s\<close> lists what is left of \<open>s\<close> after each way
  \<open>r\<close> matches a prefix of it. With both anchors and no flag, \<open>test\<close> asks for a match
  that leaves nothing.
\<close>

datatype regex = Digit | Lit string | Seq regex regex | Alt regex regex | Times nat regex

definition is_digit :: "char \<Rightarrow> bool" where
  "is_digit c = (c \<in> set ''0123456789'')"

primrec regex_size :: "regex \<Rightarrow> nat" where
  "regex_size Digit = 1"
| "regex_size (Lit w) = 1"
| "regex_size (Seq r1 r2) = Suc (regex_size r1 + regex_size r2)"
| "regex_size (Alt r1 r2) = Suc (regex_size r1 + regex_size r2)"
| "regex_size (Times n r) = Suc (n + regex_size r)"

function rx_match :: "regex \<Rightarrow> string \<Rightarrow> string list" where
  "rx_match Digit s = (case s of [] \<Rightarrow> [] | c # cs \<Rightarrow> if is_digit c then [cs] else [])"
| "rx_match (Lit w) s = (if take (length w) s = w then [drop (length w) s] else [])"
| "rx_match (Seq r1 r2) s = concat (map (rx_match r2) (rx_match r1 s))"
| "rx_match (Alt r1 r2) s = rx_match r1 s @ rx_match r2 s"
| "rx_match (Times 0 r) s = [s]"
| "rx_match (Times (Suc n) r) s = concat (map (rx_match (Times n r)) (rx_match r s))"
  by pat_completeness auto
termination
  by (relation "measure (\<lambda>(r, s). regex_size r)") auto

definition regex_test :: "regex \<Rightarrow> string \<Rightarrow> bool" where
  "regex_test r s = ([] \<in> set (rx_match r s))"

definition version_regex :: regex where
  "version_regex =
     Seq (Times 4 Digit)
       (Seq (Lit ''-'') (Alt (Lit ''01'') (Alt (Lit ''04'') (Alt (Lit ''07'') (Lit ''10'')))))"

definition isValidApiVersion :: "string \<Rightarrow> bool" where
  "isValidApiVersion version = (version = ''dev'' \<or> regex_test version_regex version)"

definition invalid_version_message :: string where
  "invalid_version_message =
     ''Invalid API version format. Expected format is 'yyyy-mm' with month as one of '01', '04', '07', or '10'.''"

subsection \<open>\<open>requestOptionsSchema\<close>\<close>

text \<open>
  The zod schema, check by check: \<open>nonempty\<close> and \<open>positive\<close> raise \<open>too_small\<close>,
  \<open>max\<close> raises \<open>too_big\<close>, a failed \<open>refine\<close> raises \<open>custom\<close> with its message,
  \<open>optional\<close> lets \<open>undefined\<close> through, and \<open>parse\<close> throws a \<open>ZodError\<close> holding
  the issues when there is one.
\<close>

record RequestOptions =
  versionOverride :: "string option"
  timeout :: "real option"

definition versionOverride_issues :: "string option \<Rightarrow> zod_issue list" where
  "versionOverride_issues version =
     (case version of None \<Rightarrow> [] | Some v \<Rightarrow> if v = [] then [too_small] else [])
     @ (if (case version of None \<Rightarrow> True | Some v \<Rightarrow> v = [] \<or> isValidApiVersion v) then []
        else [custom invalid_version_message])"

definition timeout_issues :: "real option \<Rightarrow> zod_issue list" where
  "timeout_issues t =
     (case t of
        None \<Rightarrow> []
      | Some x \<Rightarrow> (if x > 0 then [] else [too_small]) @ (if x \<le> 60000 then [] else [too_big]))"

definition requestOptionsSchema_parse :: "RequestOptions \<Rightarrow> js_error + RequestOptions" where
  "requestOptionsSchema_parse options =
     (let issues = versionOverride_issues (versionOverride options) @ timeout_issues (timeout options)
      in if issues = [] then
           Inr \<lparr>versionOverride = versionOverride options, timeout = timeout options\<rparr>
         else Inl (ZodError issues))"

subsection \<open>\<open>ApiClient\<close>\<close>

text \<open>
  \<open>DEFAULT_VERSION\<close>, \<open>getApiEndpoint\<close> and the package version come from modules
  outside the client; they are parameters. Of a \<open>RequestConfig\<close> the headers are kept,
  of a \<open>GraphQLClient\<close> its endpoint and headers.
\<close>

record environment =
  DEFAULT_VERSION :: string
  getApiEndpoint :: "string option \<Rightarrow> string"
  pkg_version :: string

record RequestConfig =
  config_headers :: "(string \<times> string) list"

record ApiClientConfig =
  token :: string
  apiVersion :: "string option"
  endpoint :: "string option"
  requestConfig :: "RequestConfig option"

record GraphQLClient =
  client_endpoint :: string
  client_headers :: "(string \<times> string) list"

record ApiClient =
  self_token :: string
  defaultApiVersion :: string
  defaultEndpoint :: "string option"
  self_requestConfig :: RequestConfig
  operations :: GraphQLClient

text \<open>
  \<open>createClient\<close> reads \<open>this.token\<close>, \<open>this.defaultApiVersion\<close>,
  \<open>this.defaultEndpoint\<close> and \<open>this.requestConfig\<close>; the constructor calls it before
  \<open>operations\<close> is set, so it takes the four fields.
\<close>

definition createClient ::
    "environment \<Rightarrow> string \<Rightarrow> string \<Rightarrow> string option \<Rightarrow> RequestConfig
      \<Rightarrow> RequestOptions option \<Rightarrow> GraphQLClient" where
  "createClient env tok defaultVersion defaultEp rc options =
     (let apiVersionToUse =
            (case options of
               None \<Rightarrow> defaultVersion
             | Some opts \<Rightarrow> (case versionOverride opts of None \<Rightarrow> defaultVersion | Some v \<Rightarrow> v));
          ep = getApiEndpoint env defaultEp;
          defaultHeaders =
            [(''Content-Type'', ''application/json''),
             (''Authorization'', tok),
             (''API-Version'', apiVersionToUse),
             (''Api-Sdk-Version'', pkg_version env)];
          mergedHeaders =
            fold (\<lambda>(k, v) h. define_property h k v) (config_headers rc) defaultHeaders
      in \<lparr>client_endpoint = ep, client_headers = mergedHeaders\<rparr>)"

definition ApiClient_constructor :: "environment \<Rightarrow> ApiClientConfig \<Rightarrow> js_error + ApiClient" where
  "ApiClient_constructor env config =
     (let tok = token config;
          version = (case apiVersion config of None \<Rightarrow> DEFAULT_VERSION env | Some v \<Rightarrow> v);
          ep = endpoint config;
          rc = (case requestConfig config of None \<Rightarrow> \<lparr>config_headers = []\<rparr> | Some c \<Rightarrow> c)
      in if \<not> isValidApiVersion version then Inl (Error invalid_version_message)
         else
           Inr \<lparr>self_token = tok, defaultApiVersion = version, defaultEndpoint = ep,
                self_requestConfig = rc,
                operations = createClient env tok version ep rc None\<rparr>)"

text \<open>
  What \<open>executeRequest\<close> does besides computing its result is kept as a log, in order:
  the client it creates, the timer it arms, the call of the executor (the only place
  where the network is reached) and the timer it clears.
\<close>

datatype effect = CreateClient GraphQLClient | SetTimeout real | CallExecutor | ClearTimeout

text \<open>
  \<open>createAbortController\<close>: no controller when \<open>!timeout\<close>; otherwise a controller and
  an armed timer. The first component says whether there is a controller, the second
  is the log.
\<close>

definition createAbortController :: "real option \<Rightarrow> bool \<times> effect list" where
  "createAbortController t =
     (case t of
        None \<Rightarrow> (False, [])
      | Some x \<Rightarrow> if x = 0 then (False, []) else (True, [SetTimeout x]))"

definition executeRequest ::
    "environment \<Rightarrow> ApiClient \<Rightarrow> RequestOptions option
      \<Rightarrow> (GraphQLClient \<Rightarrow> bool \<Rightarrow> js_error + 'r) \<Rightarrow> effect list \<times> (js_error + 'r)" where
  "executeRequest env self options executor =
     (case (case options of
              None \<Rightarrow> Inr None
            | Some opts \<Rightarrow>
                (case requestOptionsSchema_parse opts of
                   Inl err \<Rightarrow> Inl err
                 | Inr v \<Rightarrow> Inr (Some v))) of
        Inl err \<Rightarrow> ([], Inl err)
      | Inr validatedOptions \<Rightarrow>
          (let client =
                 createClient env (self_token self) (defaultApiVersion self)
                   (defaultEndpoint self) (self_requestConfig self) validatedOptions;
               (hasSignal, armed) =
                 createAbortController
                   (case validatedOptions of None \<Rightarrow> None | Some v \<Rightarrow> timeout v);
               outcome = executor client hasSignal
           in ([CreateClient client] @ armed @ [CallExecutor]
                 @ (if armed = [] then [] else [ClearTimeout]),
               outcome)))"

text \<open>
  \<open>request\<close> and \<open>rawRequest\<close> hand \<open>executeRequest\<close> an executor that calls the
  \<open>GraphQLClient\<close> method of the same name; the two methods are graphql-request's and
  are parameters.
\<close>

definition ApiClient_request ::
    "environment \<Rightarrow> (GraphQLClient \<Rightarrow> string \<Rightarrow> 'f jsval \<Rightarrow> bool \<Rightarrow> js_error + 'r)
      \<Rightarrow> ApiClient \<Rightarrow> string \<Rightarrow> 'f jsval \<Rightarrow> RequestOptions option
      \<Rightarrow> effect list \<times> (js_error + 'r)" where
  "ApiClient_request env client_request self query vars options =
     executeRequest env self options (\<lambda>client signal. client_request client query vars signal)"

definition ApiClient_rawRequest ::
    "environment \<Rightarrow> (GraphQLClient \<Rightarrow> string \<Rightarrow> 'f jsval \<Rightarrow> bool \<Rightarrow> js_error + 'r)
      \<Rightarrow> ApiClient \<Rightarrow> string \<Rightarrow> 'f jsval \<Rightarrow> RequestOptions option
      \<Rightarrow> effect list \<times> (js_error + 'r)" where
  "ApiClient_rawRequest env client_rawRequest self query vars options =
     executeRequest env self options (\<lambda>client signal. client_rawRequest client query vars signal)"

section \<open>Reference definitions for the stated properties\<close>

subsection \<open>Positions in a variable tree\<close>

text \<open>
  A position is the list of traversal keys from the root: an object key or an array
  index (counted from 0). Its dotted path is the root token with \<open>.key\<close> or
  \<open>.index\<close> appended for each step on the way down.
\<close>

datatype step = Key string | Index nat

definition step_token :: "step \<Rightarrow> string" where
  "step_token s = (case s of Key k \<Rightarrow> k | Index i \<Rightarrow> decimal i)"

definition render_path :: "string \<Rightarrow> step list \<Rightarrow> string" where
  "render_path rootToken steps = foldl (\<lambda>p s. dotted p (step_token s)) rootToken steps"

fun value_at :: "'f jsval \<Rightarrow> step list \<Rightarrow> 'f jsval option" where
  "value_at v [] = Some v"
| "value_at (JArr xs) (Index i # steps) = (if i < length xs then value_at (xs ! i) steps else None)"
| "value_at (JObj es) (Key k # steps) =
     (case map_of es k of Some v \<Rightarrow> value_at v steps | None \<Rightarrow> None)"
| "value_at _ _ = None"

text \<open>
  The binary leaves of a tree with their positions, in depth-first order: array elements
  by ascending index, object entries in the order \<open>Object.entries\<close> lists them.
\<close>

fun file_positions :: "'f jsval \<Rightarrow> (step list \<times> 'f) list" where
  "file_positions (JFile f) = [([], f)]"
| "file_positions (JArr xs) =
     concat (map (\<lambda>(i, ps). map (\<lambda>(steps, f). (Index i # steps, f)) ps)
               (List.enumerate 0 (map file_positions xs)))"
| "file_positions (JObj es) =
     concat (map (\<lambda>(k, ps). map (\<lambda>(steps, f). (Key k # steps, f)) ps)
               (Object_entries (map (\<lambda>(k, v). (k, file_positions v)) es)))"
| "file_positions v = []"

text \<open>The same listing with the entries of every object taken in insertion order.\<close>

fun insertion_positions :: "'f jsval \<Rightarrow> (step list \<times> 'f) list" where
  "insertion_positions (JFile f) = [([], f)]"
| "insertion_positions (JArr xs) =
     concat (map (\<lambda>(i, ps). map (\<lambda>(steps, f). (Index i # steps, f)) ps)
               (List.enumerate 0 (map insertion_positions xs)))"
| "insertion_positions (JObj es) =
     concat (map (\<lambda>(k, ps). map (\<lambda>(steps, f). (Key k # steps, f)) ps)
               (map (\<lambda>(k, v). (k, insertion_positions v)) es))"
| "insertion_positions v = []"

definition entry_at :: "string \<Rightarrow> step list \<times> 'f \<Rightarrow> 'f FileEntry" where
  "entry_at rootToken p = \<lparr>entry_path = render_path rootToken (fst p), entry_file = snd p\<rparr>"

text \<open>No object of the tree has a key that is an array index.\<close>

fun index_free :: "'f jsval \<Rightarrow> bool" where
  "index_free (JArr xs) = list_all index_free xs"
| "index_free (JObj es) =
     (list_all (\<lambda>k. \<not> is_array_index k) (map fst es) \<and> list_all index_free (map snd es))"
| "index_free v = True"



text \<open>
  The same tree with the properties of every object created in the order in which
  \<open>Object.entries\<close> lists them. It has the same nodes at the same positions, and
  \<open>Object.entries\<close> lists the properties of each of its objects as it does those of
  the original.
\<close>

fun enumerated :: "'f jsval \<Rightarrow> 'f jsval" where
  "enumerated (JArr xs) = JArr (map enumerated xs)"
| "enumerated (JObj es) = JObj (Object_entries (map (\<lambda>(k, v). (k, enumerated v)) es))"
| "enumerated v = v"


text \<open>Every node of a tree: the tree itself and the nodes of its elements and entries.\<close>

fun subvalues :: "'f jsval \<Rightarrow> 'f jsval list" where
  "subvalues (JArr xs) = JArr xs # concat (map subvalues xs)"
| "subvalues (JObj es) = JObj es # concat (map subvalues (map snd es))"
| "subvalues v = [v]"

subsection \<open>Example inputs\<close>

text \<open>
  The nested tree \<open>{input: {attachment: {file, metadata: {size: 100}}}}\<close> and the
  variables of the mixed-variables integration test.
\<close>

definition nested_tree :: "'f \<Rightarrow> 'f jsval" where
  "nested_tree f =
     JObj [(''input'',
       JObj [(''attachment'',
         JObj [(''file'', JFile f), (''metadata'', JObj [(''size'', JNum 100)])])])]"

text \<open>
  A file inside an array inside an object, the object built by \<open>v.b = fileA; v['1'] =
  fileB\<close>, and an object with an own property \<open>__proto__\<close> (as \<open>JSON.parse\<close> makes
  them) beside a file.
\<close>

definition listed_tree :: "'f \<Rightarrow> 'f jsval" where
  "listed_tree f = JObj [(''items'', JArr [JStr ''a'', JObj [(''doc'', JFile f)]])]"

definition reordered_tree :: "'f \<Rightarrow> 'f \<Rightarrow> 'f jsval" where
  "reordered_tree fileA fileB = JObj [(''b'', JFile fileA), (''1'', JFile fileB)]"



text \<open>
  An upload request as graphql-request hands it to the middleware: one \<open>Blob\<close> (payload
  \<open>0\<close>) under \<open>file\<close>, with the body and headers given.
\<close>

definition upload_request :: "nat body \<Rightarrow> (string \<times> string) list \<Rightarrow> nat request" where
  "upload_request b hs =
     \<lparr>url = ''https://api.monday.com/v2'', http_method = ''POST'', headers = hs, body = b,
      operationName = None, variables = JObj [(''file'', JFile 0)]\<rparr>"

definition sample_query :: string where
  "sample_query = ''mutation ($file: File!) { upload(file: $file) { id } }''"

definition sample_body :: string where
  \<open>sample_body =
     ''{"query":"mutation ($file: File!) { upload(file: $file) { id } }","variables":{"file":{}}}''\<close>

text \<open>
  What \<open>JSON.parse\<close> returns on the three JSON texts used in the examples; every other
  text used there (\<open>not json\<close>) is malformed and raises a \<open>SyntaxError\<close>.
\<close>

definition sample_parse :: "string \<Rightarrow> js_error + 'f jsval" where
  "sample_parse s =
     (if s = sample_body then
        Inr (JObj [(''query'', JStr sample_query), (''variables'', JObj [(''file'', JObj [])])])
      else if s = ''{}'' then Inr (JObj [])
      else if s = ''null'' then Inr JNull
      else Inl SyntaxError)"

subsection \<open>Headers and version strings\<close>

text \<open>A header whose name is not, whatever its casing, \<open>content-type\<close>.\<close>

abbreviation non_content_type :: "string \<times> string \<Rightarrow> bool" where
  "non_content_type \<equiv> (\<lambda>(k, v). toLowerCase k \<noteq> ''content-type'')"

text \<open>
  The strings of the pattern \<open>\d{4}-(01|04|07|10)\<close>: four decimal digits, a hyphen and
  one of the four months.
\<close>

definition matches_version_pattern :: "string \<Rightarrow> bool" where
  "matches_version_pattern v \<longleftrightarrow>
     (\<exists>y m. v = y @ ''-'' @ m \<and> length y = 4 \<and> (\<forall>c \<in> set y. is_digit c)
        \<and> m \<in> {''01'', ''04'', ''07'', ''10''})"

section \<open>Properties of the traversal and the encoder\<close>

subsection \<open>The order of \<open>Object.entries\<close>\<close>

lemma set_Object_entries [simp]: "set (Object_entries es) = set es"
  by (auto simp: Object_entries_def)

lemma mset_Object_entries: "mset (Object_entries es) = mset es"
  by (simp add: Object_entries_def case_prod_unfold flip: multiset_partition)

lemma distinct_fst_Object_entries:
  "distinct (map fst (Object_entries es)) = distinct (map fst es)"
  by (rule mset_eq_imp_distinct_iff) (simp add: mset_Object_entries)

lemma insort_key_map_values:
  "insort_key (\<lambda>(k, v). r k) (k, g v) (map (\<lambda>(k, v). (k, g v)) es)
     = map (\<lambda>(k, v). (k, g v)) (insort_key (\<lambda>(k, v). r k) (k, v) es)"
  by (induction es) auto

lemma sort_key_map_values:
  "sort_key (\<lambda>(k, v). r k) (map (\<lambda>(k, v). (k, g v)) es)
     = map (\<lambda>(k, v). (k, g v)) (sort_key (\<lambda>(k, v). r k) es)"
  by (induction es) (auto simp: insort_key_map_values)

lemma filter_map_values:
  "filter (\<lambda>(k, v). P k) (map (\<lambda>(k, v). (k, g v)) es)
     = map (\<lambda>(k, v). (k, g v)) (filter (\<lambda>(k, v). P k) es)"
  by (induction es) auto

lemma Object_entries_map_values:
  "Object_entries (map (\<lambda>(k, v). (k, g v)) es) = map (\<lambda>(k, v). (k, g v)) (Object_entries es)"
  unfolding Object_entries_def
  by (simp only: filter_map_values sort_key_map_values map_append)

lemma filter_key_twice:
  "filter (\<lambda>(k, v). P k) (filter (\<lambda>(k, v). P k) es) = filter (\<lambda>(k, v). P k) es"
  by (induction es) auto

lemma filter_key_not:
  "filter (\<lambda>(k, v). P k) (filter (\<lambda>(k, v). \<not> P k) es) = []"
  "filter (\<lambda>(k, v). \<not> P k) (filter (\<lambda>(k, v). P k) es) = []"
  "filter (\<lambda>(k, v). \<not> P k) (filter (\<lambda>(k, v). \<not> P k) es) = filter (\<lambda>(k, v). \<not> P k) es"
  by (induction es) auto

lemma Object_entries_idem: "Object_entries (Object_entries es) = Object_entries es"
proof -
  let ?A = "filter (\<lambda>(k, v). is_array_index k) es"
  let ?B = "filter (\<lambda>(k, v). \<not> is_array_index k) es"
  let ?S = "sort_key (\<lambda>(k, v). index_rank k) ?A"
  have 1: "filter (\<lambda>(k, v). is_array_index k) (?S @ ?B) = ?S"
    by (simp only: filter_append filter_sort filter_key_twice filter_key_not append_Nil2)
  have 2: "filter (\<lambda>(k, v). \<not> is_array_index k) (?S @ ?B) = ?B"
    by (simp only: filter_append filter_sort filter_key_not sort_key_simps append_Nil)
  have 3: "sort_key (\<lambda>(k, v). index_rank k) ?S = ?S"
    by (rule sort_key_id_if_sorted) simp
  have "Object_entries (Object_entries es) = Object_entries (?S @ ?B)"
    by (simp only: Object_entries_def)
  also have "\<dots> = sort_key (\<lambda>(k, v). index_rank k)
                      (filter (\<lambda>(k, v). is_array_index k) (?S @ ?B))
                    @ filter (\<lambda>(k, v). \<not> is_array_index k) (?S @ ?B)"
    by (rule Object_entries_def)
  also have "\<dots> = ?S @ ?B"
    by (simp only: 1 2 3)
  also have "\<dots> = Object_entries es"
    by (simp only: Object_entries_def)
  finally show ?thesis .
qed

lemma Object_entries_index_free:
  "list_all (\<lambda>k. \<not> is_array_index k) (map fst es) \<Longrightarrow> Object_entries es = es"
  by (simp add: Object_entries_def filter_empty_conv filter_id_conv list_all_iff case_prod_unfold)

subsection \<open>What \<open>processValue\<close> computes\<close>

lemma entry_at_Index:
  "entry_at p (Index i # st, f) = entry_at (dotted p (decimal i)) (st, f)"
  by (simp add: entry_at_def render_path_def step_token_def)

lemma entry_at_Key:
  "entry_at p (Key k # st, f) = entry_at (dotted p k) (st, f)"
  by (simp add: entry_at_def render_path_def step_token_def)

lemma process_files:
  "snd (processValue v p fs) = fs @ map (entry_at p) (file_positions v)"
  "snd (processItems xs i p fs) =
     fs @ map (entry_at p)
            (concat (map (\<lambda>(j, ps). map (\<lambda>(steps, f). (Index j # steps, f)) ps)
                       (List.enumerate i (map file_positions xs))))"
  "snd (processEntries es p acc fs) =
     fs @ map (entry_at p)
            (concat (map (\<lambda>(k, v). map (\<lambda>(steps, f). (Key k # steps, f)) (file_positions v)) es))"
proof (induction v p fs and xs i p fs and es p acc fs
       rule: processValue_processItems_processEntries.induct)
  case (2 items currentPath fs)
  then show ?case
    by (simp add: split_beta case_prod_unfold)
next
  case (8 props currentPath fs)
  have fp: "file_positions (JObj props)
      = concat (map (\<lambda>(k, v). map (\<lambda>(steps, f). (Key k # steps, f)) (file_positions v))
                  (Object_entries props))"
    by (simp add: Object_entries_map_values[unfolded case_prod_unfold] case_prod_unfold comp_def)
  show ?case
    unfolding fp using "8.IH" by (simp add: split_beta case_prod_unfold)
next
  case (10 item rest index currentPath fs)
  obtain item' fs' where pv: "processValue item (dotted currentPath (decimal index)) fs = (item', fs')"
    by (cases "processValue item (dotted currentPath (decimal index)) fs")
  from "10.IH"(1) pv
  have 1: "fs' = fs @ map (entry_at (dotted currentPath (decimal index))) (file_positions item)"
    by simp
  have 2: "snd (processItems rest (Suc index) currentPath fs') =
             fs' @ map (entry_at currentPath)
               (concat (map (\<lambda>(j, ps). map (\<lambda>(steps, f). (Index j # steps, f)) ps)
                          (List.enumerate (Suc index) (map file_positions rest))))"
    using "10.IH"(2)[OF refl pv[symmetric]] .
  show ?case
    using 1 2 pv by (simp add: split_beta entry_at_Index comp_def case_prod_unfold)
next
  case (12 key val rest currentPath result fs)
  obtain val' fs' where pv: "processValue val (dotted currentPath key) fs = (val', fs')"
    by (cases "processValue val (dotted currentPath key) fs")
  from "12.IH"(1) pv
  have 1: "fs' = fs @ map (entry_at (dotted currentPath key)) (file_positions val)"
    by simp
  have 2: "snd (processEntries rest currentPath (set_property result key val') fs') =
             fs' @ map (entry_at currentPath)
               (concat (map (\<lambda>(k, v). map (\<lambda>(steps, f). (Key k # steps, f)) (file_positions v)) rest))"
    using "12.IH"(2)[OF refl pv[symmetric]] .
  show ?case
    using 1 2 pv by (simp add: split_beta entry_at_Key comp_def case_prod_unfold)
qed (simp_all add: split_beta entry_at_def render_path_def)

lemma define_property_fresh:
  "key \<notin> fst ` set obj \<Longrightarrow> define_property obj key v = obj @ [(key, v)]"
  by (induction obj) auto

lemma set_property_fresh:
  "key \<noteq> ''__proto__'' \<Longrightarrow> key \<notin> fst ` set obj \<Longrightarrow> set_property obj key v = obj @ [(key, v)]"
  by (simp add: set_property_def define_property_fresh)


subsection \<open>Cleaned trees, nodes and positions\<close>




lemma check_subvalues: "check v \<longleftrightarrow> (\<exists>n \<in> set (subvalues v). isFile n)"
  by (induction v rule: check.induct) (auto simp: list_ex_iff isFile_def Object_values_def)





lemma in_positions_arr:
  "(steps, f) \<in> set (file_positions (JArr xs)) \<longleftrightarrow>
     (\<exists>i st. steps = Index i # st \<and> i < length xs \<and> (st, f) \<in> set (file_positions (xs ! i)))"
proof
  assume "(steps, f) \<in> set (file_positions (JArr xs))"
  then show "\<exists>i st. steps = Index i # st \<and> i < length xs
      \<and> (st, f) \<in> set (file_positions (xs ! i))"
    by (auto simp: in_set_enumerate_eq)
next
  assume "\<exists>i st. steps = Index i # st \<and> i < length xs
      \<and> (st, f) \<in> set (file_positions (xs ! i))"
  then obtain i st where s: "steps = Index i # st" and i: "i < length xs"
    and m: "(st, f) \<in> set (file_positions (xs ! i))"
    by blast
  from i have e: "(i, file_positions (xs ! i)) \<in> set (List.enumerate 0 (map file_positions xs))"
    by (simp add: in_set_enumerate_eq)
  from m have p: "(Index i # st, f)
      \<in> set (map (\<lambda>(steps, f). (Index i # steps, f)) (file_positions (xs ! i)))"
    by (simp add: image_iff) (rule bexI[of _ "(st, f)"], simp_all)
  have "(Index i # st, f) \<in> set (concat (map (\<lambda>(i, ps). map (\<lambda>(steps, f). (Index i # steps, f)) ps)
               (List.enumerate 0 (map file_positions xs))))"
    unfolding set_concat set_map
    by (rule UN_I[OF imageI[OF e]]) (use p in simp)
  then show "(steps, f) \<in> set (file_positions (JArr xs))"
    unfolding s by simp
qed

lemma in_positions_obj:
  "(steps, f) \<in> set (file_positions (JObj es)) \<longleftrightarrow>
     (\<exists>k v st. steps = Key k # st \<and> (k, v) \<in> set es \<and> (st, f) \<in> set (file_positions v))"
proof
  assume "(steps, f) \<in> set (file_positions (JObj es))"
  then show "\<exists>k v st. steps = Key k # st \<and> (k, v) \<in> set es
      \<and> (st, f) \<in> set (file_positions v)"
    by auto
next
  assume "\<exists>k v st. steps = Key k # st \<and> (k, v) \<in> set es
      \<and> (st, f) \<in> set (file_positions v)"
  then obtain k v st where s: "steps = Key k # st" and e: "(k, v) \<in> set es"
    and m: "(st, f) \<in> set (file_positions v)"
    by blast
  from e have e': "(k, file_positions v)
      \<in> set (Object_entries (map (\<lambda>(k, v). (k, file_positions v)) es))"
    by (simp add: image_iff) (rule bexI[of _ "(k, v)"], simp_all)
  from m have p: "(Key k # st, f)
      \<in> set (map (\<lambda>(steps, f). (Key k # steps, f)) (file_positions v))"
    by (simp add: image_iff) (rule bexI[of _ "(st, f)"], simp_all)
  have "(Key k # st, f) \<in> set (concat (map (\<lambda>(k, ps). map (\<lambda>(steps, f). (Key k # steps, f)) ps)
               (Object_entries (map (\<lambda>(k, v). (k, file_positions v)) es))))"
    unfolding set_concat set_map
    by (rule UN_I[OF imageI[OF e']]) (use p in simp)
  then show "(steps, f) \<in> set (file_positions (JObj es))"
    unfolding s by simp
qed

lemma value_at_arr_file:
  "value_at (JArr xs) steps = Some (JFile f) \<longleftrightarrow>
     (\<exists>i st. steps = Index i # st \<and> i < length xs \<and> value_at (xs ! i) st = Some (JFile f))"
proof (cases steps)
  case Nil
  then show ?thesis by simp
next
  case (Cons s st)
  then show ?thesis by (cases s) auto
qed

lemma value_at_obj_file:
  "distinct (map fst es) \<Longrightarrow>
   value_at (JObj es) steps = Some (JFile f) \<longleftrightarrow>
     (\<exists>k v st. steps = Key k # st \<and> (k, v) \<in> set es \<and> value_at v st = Some (JFile f))"
proof (cases steps)
  case Nil
  then show ?thesis by simp
next
  case (Cons s st)
  assume "distinct (map fst es)"
  with Cons show ?thesis
    by (cases s) (auto split: option.splits dest: eq_key_imp_eq_value)
qed

lemma positions_iff:
  "distinct_keys v \<Longrightarrow>
     (steps, f) \<in> set (file_positions v) \<longleftrightarrow> value_at v steps = Some (JFile f)"
proof (induction v arbitrary: steps rule: file_positions.induct)
  case (1 g)
  then show ?case by (cases steps) auto
next
  case (2 xs)
  from "2.prems" have "\<And>i. i < length xs \<Longrightarrow> distinct_keys (xs ! i)"
    by (simp add: list_all_length)
  with "2.IH" have "\<And>i st. i < length xs \<Longrightarrow>
      (st, f) \<in> set (file_positions (xs ! i)) \<longleftrightarrow> value_at (xs ! i) st = Some (JFile f)"
    by simp
  then show ?case
    unfolding in_positions_arr value_at_arr_file by blast
next
  case (3 es)
  from "3.prems" have d: "distinct (map fst es)"
    and "\<And>k v. (k, v) \<in> set es \<Longrightarrow> distinct_keys v"
    by (auto simp: list_all_iff)
  with "3.IH" have "\<And>k v st. (k, v) \<in> set es \<Longrightarrow>
      (st, f) \<in> set (file_positions v) \<longleftrightarrow> value_at v st = Some (JFile f)"
    by blast
  then show ?case
    unfolding in_positions_obj value_at_obj_file[OF d] by blast
qed (case_tac [!] steps, simp_all)

lemma distinct_tagged:
  assumes "distinct (map fst kps)" and "\<forall>(k, ps) \<in> set kps. distinct (map fst ps)" and "inj tag"
  shows "distinct (map fst (concat (map (\<lambda>(k, ps). map (\<lambda>(st, f). (tag k # st, f)) ps) kps)))"
  using assms(1,2)
proof (induction kps)
  case Nil
  then show ?case by simp
next
  case (Cons a kps)
  obtain k ps where a: "a = (k, ps)" by (cases a)
  from Cons have IH: "distinct (map fst (concat (map (\<lambda>(k, ps). map (\<lambda>(st, f). (tag k # st, f)) ps) kps)))"
    by simp
  have h: "map fst (map (\<lambda>(st, f). (tag k # st, f)) ps) = map ((#) (tag k)) (map fst ps)"
    by (simp add: case_prod_unfold comp_def)
  from Cons.prems a have "distinct (map fst ps)" by simp
  then have d: "distinct (map fst (map (\<lambda>(st, f). (tag k # st, f)) ps))"
    unfolding h by (simp add: distinct_map inj_on_def)
  have disj: "set (map fst (map (\<lambda>(st, f). (tag k # st, f)) ps))
      \<inter> set (map fst (concat (map (\<lambda>(k, ps). map (\<lambda>(st, f). (tag k # st, f)) ps) kps))) = {}"
  proof (rule ccontr)
    assume "\<not> ?thesis"
    then obtain p where p1: "p \<in> set (map fst (map (\<lambda>(st, f). (tag k # st, f)) ps))"
      and p2: "p \<in> set (map fst (concat (map (\<lambda>(k, ps). map (\<lambda>(st, f). (tag k # st, f)) ps) kps)))"
      by blast
    from p1 obtain st where st: "p = tag k # st"
      by (auto simp: case_prod_unfold)
    from p2 obtain k' ps' st' where k': "(k', ps') \<in> set kps" "p = tag k' # st'"
      by (auto simp: case_prod_unfold)
    from st k' assms(3) have "k' = k"
      by (simp add: inj_def)
    with k'(1) Cons.prems(1) a show False
      by (force simp: image_iff)
  qed
  show ?case
    using IH d disj by (simp add: a del: map_map)
qed

lemma positions_distinct: "distinct_keys v \<Longrightarrow> distinct (map fst (file_positions v))"
proof (induction v rule: file_positions.induct)
  case (2 xs)
  have "distinct (map fst (List.enumerate 0 (map file_positions xs)))"
    by simp
  moreover have "\<forall>(i, ps) \<in> set (List.enumerate 0 (map file_positions xs)). distinct (map fst ps)"
    using 2 by (auto simp: in_set_enumerate_eq list_all_iff)
  moreover have "inj Index"
    by (simp add: inj_def)
  ultimately show ?case
    unfolding file_positions.simps by (rule distinct_tagged)
next
  case (3 es)
  let ?kps = "Object_entries (map (\<lambda>(k, v). (k, file_positions v)) es)"
  from 3 have "distinct (map fst (map (\<lambda>(k, v). (k, file_positions v)) es))"
    by (simp add: case_prod_unfold comp_def)
  then have "distinct (map fst ?kps)"
    by (simp only: distinct_fst_Object_entries)
  moreover have "\<forall>(k, ps) \<in> set ?kps. distinct (map fst ps)"
    using 3 by (auto simp: list_all_iff)
  moreover have "inj Key"
    by (simp add: inj_def)
  ultimately show ?case
    unfolding file_positions.simps by (rule distinct_tagged)
qed simp_all

lemma index_free_positions: "index_free v \<Longrightarrow> file_positions v = insertion_positions v"
proof (induction v rule: file_positions.induct)
  case (2 xs)
  then have "map file_positions xs = map insertion_positions xs"
    by (simp add: list_all_iff)
  then show ?case
    by (simp only: file_positions.simps insertion_positions.simps)
next
  case (3 es)
  then have "map (\<lambda>(k, v). (k, file_positions v)) es = map (\<lambda>(k, v). (k, insertion_positions v)) es"
    by (auto simp: list_all_iff)
  moreover from 3 have "Object_entries (map (\<lambda>(k, v). (k, insertion_positions v)) es)
      = map (\<lambda>(k, v). (k, insertion_positions v)) es"
    by (intro Object_entries_index_free) (simp add: comp_def case_prod_unfold)
  ultimately show ?case
    by (simp only: file_positions.simps insertion_positions.simps)
qed simp_all

lemma enumerated_Object_entries:
  "enumerated (JObj es) = JObj es' \<Longrightarrow>
     Object_entries es' = es' \<and> map fst es' = map fst (Object_entries es)"
  by (auto simp: Object_entries_idem Object_entries_map_values[unfolded case_prod_unfold]
        comp_def case_prod_unfold)

subsection \<open>Index strings are distinct\<close>

lemma digit_char_inj: "a < 10 \<Longrightarrow> b < 10 \<Longrightarrow> digit_char a = digit_char b \<Longrightarrow> a = b"
proof -
  assume a: "a < 10" and b: "b < 10" and eq: "digit_char a = digit_char b"
  from a have ea: "a \<in> {0, 1, 2, 3, 4, 5, 6, 7, 8, 9}" by auto
  from b have eb: "b \<in> {0, 1, 2, 3, 4, 5, 6, 7, 8, 9}" by auto
  from ea eb eq show ?thesis
    by (auto simp: digit_char_def)
qed

lemma decimal_small: "n < 10 \<Longrightarrow> decimal n = [digit_char n]"
  by (simp add: decimal.simps)

lemma decimal_large: "\<not> n < 10 \<Longrightarrow> decimal n = decimal (n div 10) @ [digit_char (n mod 10)]"
  by (subst decimal.simps) simp

lemma decimal_nonempty: "decimal n \<noteq> []"
  by (subst decimal.simps) simp

lemma decimal_inj: "decimal n = decimal m \<Longrightarrow> n = m"
proof (induction n arbitrary: m rule: decimal.induct)
  case (1 n)
  show ?case
  proof (cases "n < 10")
    case small_n: True
    show ?thesis
    proof (cases "m < 10")
      case True
      with small_n "1.prems" show ?thesis
        by (simp add: decimal_small digit_char_inj)
    next
      case False
      with small_n "1.prems" decimal_nonempty[of "m div 10"] show ?thesis
        by (simp add: decimal_small decimal_large)
    qed
  next
    case large_n: False
    show ?thesis
    proof (cases "m < 10")
      case True
      with large_n "1.prems" decimal_nonempty[of "n div 10"] show ?thesis
        by (simp add: decimal_small decimal_large)
    next
      case False
      with large_n "1.prems"
      have eq: "decimal (n div 10) = decimal (m div 10)"
        and d: "digit_char (n mod 10) = digit_char (m mod 10)"
        by (simp_all add: decimal_large)
      from "1.IH"[OF large_n eq] have "n div 10 = m div 10" .
      moreover from d have "n mod 10 = m mod 10"
        by (intro digit_char_inj) simp_all
      ultimately show ?thesis
        by (metis div_mult_mod_eq)
    qed
  qed
qed

lemma last_decimal: "last (decimal n) = digit_char (n mod 10)"
  by (subst decimal.simps) (simp add: decimal_nonempty)

lemma decimal_not_proto: "decimal n \<noteq> ''__proto__''"
proof
  assume "decimal n = ''__proto__''"
  then have "last (decimal n) = CHR ''_''"
    by simp
  then have "digit_char (n mod 10) = CHR ''_''"
    by (simp add: last_decimal)
  moreover have "digit_char (n mod 10) \<in> set ''0123456789''"
    unfolding digit_char_def by (rule nth_mem) simp
  ultimately show False
    by simp
qed

subsection \<open>The parts of the multipart body\<close>

lemma Object_entries_array_snoc:
  "Object_entries_array (xs @ [x]) = Object_entries_array xs @ [(decimal (length xs), x)]"
  by (simp add: Object_entries_array_def)

lemma Object_entries_array_map:
  "Object_entries_array xs = map (\<lambda>i. (decimal i, xs ! i)) [0..<length xs]"
  by (rule nth_equalityI) (simp_all add: Object_entries_array_def)

lemma build_map_indices:
  "build_map fs = map (\<lambda>i. (decimal i, [entry_path (fs ! i)])) [0..<length fs]"
proof (induction fs rule: rev_induct)
  case Nil
  show ?case by (simp add: build_map_def Object_entries_array_def)
next
  case (snoc e fs)
  have fresh: "decimal (length fs) \<notin> fst ` set (build_map fs)"
    by (auto simp: snoc.IH dest: decimal_inj)
  have "build_map (fs @ [e]) = set_property (build_map fs) (decimal (length fs)) [entry_path e]"
    by (simp add: build_map_def Object_entries_array_snoc)
  also have "\<dots> = build_map fs @ [(decimal (length fs), [entry_path e])]"
    by (rule set_property_fresh[OF decimal_not_proto fresh])
  finally show ?case
    by (simp add: snoc.IH nth_append)
qed

lemma fold_FormData_append:
  "fold (\<lambda>(index, entry) formData. FormData_append formData index (g entry)) es base
     = base @ map (\<lambda>(index, entry). (index, g entry)) es"
  by (induction es arbitrary: base) (auto simp: FormData_append_def)

lemma createMultipartFormData_parts:
  "createMultipartFormData S query vars fs =
     [(''query'', query),
      (''variables'', JStr (S vars)),
      (''map'', JStr (S (map_value (build_map fs))))]
     @ map (\<lambda>i. (decimal i, JFile (entry_file (fs ! i)))) [0..<length fs]"
  unfolding createMultipartFormData_def Let_def fold_FormData_append
  by (simp add: FormData_append_def Object_entries_array_map comp_def)

subsection \<open>Header clean-up\<close>

lemma fold_delete:
  "fold (\<lambda>key h. if P key then delete_key key h else h) ks hs
     = filter (\<lambda>(k, v). \<not> (P k \<and> k \<in> set ks)) hs"
proof (induction ks arbitrary: hs)
  case Nil
  show ?case by simp
next
  case (Cons key ks)
  show ?case
    by (auto simp: Cons.IH delete_key_def intro!: filter_cong)
qed

lemma strip_content_type_filter:
  "strip_content_type hs = filter (\<lambda>(k, v). toLowerCase k \<noteq> ''content-type'') hs"
  unfolding strip_content_type_def fold_delete
  by (rule filter_cong) force+

lemma lower_samples:
  "toLowerCase ''Content-Type'' = ''content-type''"
  "toLowerCase ''content-type'' = ''content-type''"
  "toLowerCase ''CONTENT-TYPE'' = ''content-type''"
  by (simp_all add: toLowerCase_def lower_char_def)

lemma strip_content_type_complete:
  "(k, v) \<in> set (strip_content_type hs) \<Longrightarrow> toLowerCase k \<noteq> ''content-type''"
  by (simp add: strip_content_type_filter)

lemma strip_content_type_casings:
  "strip_content_type
     [(''Content-Type'', a), (''content-type'', b), (''CONTENT-TYPE'', c), (''Authorization'', d)]
   = [(''Authorization'', d)]"
  by (simp add: strip_content_type_filter toLowerCase_def lower_char_def)

subsection \<open>Evaluating the examples\<close>

lemmas eval_tree = extractFiles_def dotted_def decimal_small digit_char_def
  Object_entries_def is_array_index_def index_rank_def index_of_key_def digit_value_def
  set_property_def

lemma hasFiles_upload: "hasFiles (JObj [(''file'', JFile f)])"
  by (simp add: hasFiles_def list_ex_iff Object_values_def)

lemma has_upload: "hasFiles (variables (upload_request b hs))" "\<not> falsy (variables (upload_request b hs))"
  by (simp_all add: upload_request_def hasFiles_upload)

lemma extract_upload:
  "extractFiles (JObj [(''file'', JFile (0::nat))]) ''variables''
     = \<lparr>cleanedVariables = JObj [(''file'', JNull)],
        files = [\<lparr>entry_path = ''variables.file'', entry_file = 0\<rparr>]\<rparr>"
  by (simp add: eval_tree)

lemma encode_upload:
  "createMultipartFormData S q (JObj [(''file'', JNull)])
       [\<lparr>entry_path = ''variables.file'', entry_file = (0::nat)\<rparr>]
     = [(''query'', q),
        (''variables'', JStr (S (JObj [(''file'', JNull)]))),
        (''map'', JStr (S (JObj [(''0'', JArr [JStr ''variables.file''])]))),
        (''0'', JFile 0)]"
  by (simp add: createMultipartFormData_parts build_map_indices map_value_def decimal_small digit_char_def)

subsection \<open>The language of the version pattern\<close>

lemma rx_match_digits:
  "rx_match (Times n Digit) s =
     (if n \<le> length s \<and> (\<forall>c \<in> set (take n s). is_digit c) then [drop n s] else [])"
proof (induction n arbitrary: s)
  case 0
  show ?case by simp
next
  case (Suc n)
  show ?case
  proof (cases s)
    case Nil
    then show ?thesis by simp
  next
    case (Cons a list)
    then show ?thesis
      by (cases "is_digit a") (simp_all add: Suc.IH)
  qed
qed

lemma seq_digits:
  "rx_match (Seq (Times n Digit) r) s =
     (if n \<le> length s \<and> (\<forall>c \<in> set (take n s). is_digit c) then rx_match r (drop n s) else [])"
  by (auto simp: rx_match_digits)

lemma alt_mem:
  "x \<in> set (rx_match (Alt a b) u) \<longleftrightarrow> x \<in> set (rx_match a u) \<or> x \<in> set (rx_match b u)"
  by simp

lemma seq_lit:
  "rx_match (Seq (Lit w) r) s =
     (if take (length w) s = w then rx_match r (drop (length w) s) else [])"
  by simp

lemma lit_exact: "[] \<in> set (rx_match (Lit w) u) \<longleftrightarrow> u = w"
proof
  assume "[] \<in> set (rx_match (Lit w) u)"
  then have "take (length w) u = w" and "drop (length w) u = []"
    by (simp_all split: if_splits)
  then show "u = w"
    by (metis append_take_drop_id append_Nil2)
qed simp

lemma version_regex_normal:
  "regex_test version_regex v \<longleftrightarrow>
     4 \<le> length v \<and> (\<forall>c \<in> set (take 4 v). is_digit c) \<and> take 1 (drop 4 v) = ''-''
     \<and> drop 5 v \<in> {''01'', ''04'', ''07'', ''10''}"
  unfolding regex_test_def version_regex_def seq_digits seq_lit
  by (simp add: alt_mem lit_exact del: rx_match.simps)

lemma version_regex_language:
  "regex_test version_regex v \<longleftrightarrow> matches_version_pattern v"
  unfolding matches_version_pattern_def
proof
  assume "regex_test version_regex v"
  then have len: "4 \<le> length v" and digits: "\<forall>c \<in> set (take 4 v). is_digit c"
    and dash: "take 1 (drop 4 v) = ''-''"
    and month: "drop 5 v \<in> {''01'', ''04'', ''07'', ''10''}"
    unfolding version_regex_normal by simp_all
  have "take 1 (drop 4 v) @ drop 1 (drop 4 v) = drop 4 v"
    by (rule append_take_drop_id)
  with dash have "''-'' @ drop 5 v = drop 4 v"
    by simp
  then have "take 4 v @ ''-'' @ drop 5 v = take 4 v @ drop 4 v"
    by (simp only:)
  then have "v = take 4 v @ ''-'' @ drop 5 v"
    by simp
  with len digits month show "\<exists>y m. v = y @ ''-'' @ m \<and> length y = 4
      \<and> (\<forall>c \<in> set y. is_digit c) \<and> m \<in> {''01'', ''04'', ''07'', ''10''}"
    by (intro exI[of _ "take 4 v"] exI[of _ "drop 5 v"]) simp
next
  assume "\<exists>y m. v = y @ ''-'' @ m \<and> length y = 4 \<and> (\<forall>c \<in> set y. is_digit c)
      \<and> m \<in> {''01'', ''04'', ''07'', ''10''}"
  then obtain y m where "v = y @ ''-'' @ m" "length y = 4" "\<forall>c \<in> set y. is_digit c"
      "m \<in> {''01'', ''04'', ''07'', ''10''}"
    by blast
  then show "regex_test version_regex v"
    unfolding version_regex_normal by auto
qed

lemma isValidApiVersion_iff:
  "isValidApiVersion v \<longleftrightarrow> v = ''dev'' \<or> matches_version_pattern v"
  by (simp only: isValidApiVersion_def version_regex_language)

lemma matches_version_pattern_normal:
  "matches_version_pattern v \<longleftrightarrow>
     4 \<le> length v \<and> (\<forall>c \<in> set (take 4 v). is_digit c) \<and> take 1 (drop 4 v) = ''-''
     \<and> drop 5 v \<in> {''01'', ''04'', ''07'', ''10''}"
  by (simp only: version_regex_language[symmetric] version_regex_normal)

section \<open>The claims\<close>

subsection \<open>Detection and extraction\<close>

text \<open>
  Claim C6. \<open>hasFiles\<close> returns false when the variables are absent (\<open>undefined\<close> or
  \<open>null\<close>) or empty (\<open>{}\<close>), and for every variable tree it returns true if and only
  if at least one node anywhere in the tree, at any depth, inside arrays or nested
  objects, is a binary payload leaf.
\<close>

theorem hasFiles_iff_some_file_node:
  "hasFiles (JUndefined :: 'f jsval) = False
   \<and> hasFiles (JNull :: 'f jsval) = False
   \<and> hasFiles (JObj [] :: 'f jsval) = False
   \<and> (hasFiles (v :: 'f jsval) \<longleftrightarrow> (\<exists>n \<in> set (subvalues v). isFile n))"
proof (intro conjI)
  have "hasFiles v \<longleftrightarrow> check v"
    by (cases v) (simp_all add: hasFiles_def)
  then show "hasFiles v \<longleftrightarrow> (\<exists>n \<in> set (subvalues v). isFile n)"
    by (simp add: check_subvalues)
qed (simp_all add: hasFiles_def Object_values_def Object_entries_def)

text \<open>
  Claim C3, as the code has it. For every variable tree, \<open>extractFiles\<close> lists the
  file entries in depth-first order, array elements by ascending index and the entries
  of an object in the order \<open>Object.entries\<close> enumerates them: the keys that are array
  indices first, in ascending numeric order, then the other keys in insertion order.
  For a tree with no such key that is the insertion order. The \<open>map\<close> field of the
  encoder gives, for each \<open>i\<close> from 0 to the number of entries minus 1, to the decimal
  string of \<open>i\<close> the one-element list holding the path of entry \<open>i\<close>. In particular, for
  \<open>{files: [fileA, fileB]}\<close> the entries are \<open>variables.files.0\<close> then
  \<open>variables.files.1\<close> and the map is
  \<open>{"0": ["variables.files.0"], "1": ["variables.files.1"]}\<close>.
\<close>

theorem extractFiles_depth_first_order:
  "files (extractFiles v ''variables'') = map (entry_at ''variables'') (file_positions v)
   \<and> (index_free v \<longrightarrow>
        files (extractFiles v ''variables'') = map (entry_at ''variables'') (insertion_positions v))
   \<and> map_of (createMultipartFormData S query cleaned fs) ''map''
       = Some (JStr (S (JObj (map (\<lambda>i. (decimal i, JArr [JStr (entry_path (fs ! i))]))
                               [0..<length fs]))))
   \<and> files (extractFiles (JObj [(''files'', JArr [JFile fileA, JFile fileB])]) ''variables'')
       = [\<lparr>entry_path = ''variables.files.0'', entry_file = fileA\<rparr>,
          \<lparr>entry_path = ''variables.files.1'', entry_file = fileB\<rparr>]
   \<and> build_map [\<lparr>entry_path = ''variables.files.0'', entry_file = fileA\<rparr>,
                 \<lparr>entry_path = ''variables.files.1'', entry_file = fileB\<rparr>]
       = [(''0'', [''variables.files.0'']), (''1'', [''variables.files.1''])]"
proof (intro conjI impI)
  show e: "files (extractFiles v ''variables'') = map (entry_at ''variables'') (file_positions v)"
    using process_files(1)[of v "''variables''" "[]"]
    by (simp add: extractFiles_def split_beta)
  show "files (extractFiles v ''variables'') = map (entry_at ''variables'') (insertion_positions v)"
    if "index_free v"
    using e index_free_positions[OF that] by simp
  show "map_of (createMultipartFormData S query cleaned fs) ''map''
       = Some (JStr (S (JObj (map (\<lambda>i. (decimal i, JArr [JStr (entry_path (fs ! i))]))
                               [0..<length fs]))))"
    by (simp add: createMultipartFormData_parts build_map_indices map_value_def comp_def)
  show "files (extractFiles (JObj [(''files'', JArr [JFile fileA, JFile fileB])]) ''variables'')
       = [\<lparr>entry_path = ''variables.files.0'', entry_file = fileA\<rparr>,
          \<lparr>entry_path = ''variables.files.1'', entry_file = fileB\<rparr>]"
    by (simp add: eval_tree)
  show "build_map [\<lparr>entry_path = ''variables.files.0'', entry_file = fileA\<rparr>,
                 \<lparr>entry_path = ''variables.files.1'', entry_file = fileB\<rparr>]
       = [(''0'', [''variables.files.0'']), (''1'', [''variables.files.1''])]"
    by (simp add: build_map_indices upt_rec[of 0] upt_rec[of "Suc 0"] decimal_small
          digit_char_def)
qed

theorem extractFiles_depth_first_order_witness:
  "index_free (JObj [(''files'', JArr [JFile (0::nat), JFile 1])])
   \<and> map (entry_at ''variables'')
         (insertion_positions (JObj [(''files'', JArr [JFile (0::nat), JFile 1])]))
       = [\<lparr>entry_path = ''variables.files.0'', entry_file = 0\<rparr>,
          \<lparr>entry_path = ''variables.files.1'', entry_file = 1\<rparr>]"
proof -
  let ?v = "JObj [(''files'', JArr [JFile (0::nat), JFile 1])]"
  have f: "index_free ?v"
    by (simp add: is_array_index_def index_of_key_def digit_value_def)
  from extractFiles_depth_first_order[where v = ?v and fileA = 0 and fileB = 1] f
  have "files (extractFiles ?v ''variables'') = map (entry_at ''variables'') (insertion_positions ?v)"
    and "files (extractFiles ?v ''variables'')
       = [\<lparr>entry_path = ''variables.files.0'', entry_file = 0\<rparr>,
          \<lparr>entry_path = ''variables.files.1'', entry_file = 1\<rparr>]"
    by blast+
  with f show ?thesis
    by simp
qed

text \<open>
  Claim C3 as stated, with the entries of an object taken in insertion order, fails
  where an object has a key that is an array index: for the object built by
  \<open>v.b = fileA; v['1'] = fileB\<close> the code records \<open>variables.1\<close> before
  \<open>variables.b\<close>.
\<close>

theorem integer_like_key_listed_first:
  "files (extractFiles (reordered_tree (0::nat) 1) ''variables'')
     = [\<lparr>entry_path = ''variables.1'', entry_file = 1\<rparr>,
        \<lparr>entry_path = ''variables.b'', entry_file = 0\<rparr>]
   \<and> map (entry_at ''variables'') (insertion_positions (reordered_tree (0::nat) 1))
     = [\<lparr>entry_path = ''variables.b'', entry_file = 0\<rparr>,
        \<lparr>entry_path = ''variables.1'', entry_file = 1\<rparr>]
   \<and> files (extractFiles (reordered_tree (0::nat) 1) ''variables'')
     \<noteq> map (entry_at ''variables'') (insertion_positions (reordered_tree (0::nat) 1))"
  by (simp add: reordered_tree_def eval_tree entry_at_def render_path_def step_token_def)




text \<open>
  Claim C5. The binary payload leaves found by \<open>extractFiles\<close> are the leaves of the
  tree, each recorded once per position, in the order of the traversal, and the path
  recorded for a leaf is the root token \<open>variables\<close> joined with each traversal key on
  the way down to that leaf, object keys appended as \<open>.key\<close> and array indices as
  \<open>.index\<close> in 0-based decimal (in a tree where no object lists a key twice, the
  positions listed are exactly those at which the tree holds a binary leaf). For
  \<open>{items: ['a', {doc: file}]}\<close> the path is \<open>variables.items.1.doc\<close>; for
  \<open>{input: {attachment: {file, metadata: {size: 100}}}}\<close> the single recorded path is
  \<open>variables.input.attachment.file\<close> and the \<open>metadata\<close> subtree is unchanged in the
  output.
\<close>

theorem extractFiles_dotted_paths:
  "files (extractFiles (v :: 'f jsval) ''variables'')
     = map (\<lambda>(steps, f). \<lparr>entry_path = render_path ''variables'' steps, entry_file = f\<rparr>)
         (file_positions v)
   \<and> (distinct_keys v \<longrightarrow>
        (\<forall>steps f. (steps, f) \<in> set (file_positions v) \<longleftrightarrow> value_at v steps = Some (JFile f)))
   \<and> (distinct_keys v \<longrightarrow> distinct (map fst (file_positions v)))
   \<and> render_path ''variables'' [Key ''items'', Index 1, Key ''doc''] = ''variables.items.1.doc''
   \<and> files (extractFiles (listed_tree (f :: 'f)) ''variables'')
       = [\<lparr>entry_path = ''variables.items.1.doc'', entry_file = f\<rparr>]
   \<and> files (extractFiles (nested_tree f) ''variables'')
       = [\<lparr>entry_path = ''variables.input.attachment.file'', entry_file = f\<rparr>]
   \<and> value_at (cleanedVariables (extractFiles (nested_tree f) ''variables''))
        [Key ''input'', Key ''attachment'', Key ''metadata'']
       = value_at (nested_tree f) [Key ''input'', Key ''attachment'', Key ''metadata'']
   \<and> value_at (nested_tree f) [Key ''input'', Key ''attachment'', Key ''metadata'']
       = Some (JObj [(''size'', JNum 100)])"
proof (intro conjI impI allI)
  show "files (extractFiles v ''variables'')
     = map (\<lambda>(steps, f). \<lparr>entry_path = render_path ''variables'' steps, entry_file = f\<rparr>)
         (file_positions v)"
    using process_files(1)[of v "''variables''" "[]"]
    by (simp add: extractFiles_def split_beta entry_at_def case_prod_unfold)
  show "(steps, g) \<in> set (file_positions v) \<longleftrightarrow> value_at v steps = Some (JFile g)"
    if "distinct_keys v" for steps g
    by (rule positions_iff[OF that])
  show "distinct (map fst (file_positions v))" if "distinct_keys v"
    by (rule positions_distinct[OF that])
  show "render_path ''variables'' [Key ''items'', Index 1, Key ''doc''] = ''variables.items.1.doc''"
    by (simp add: render_path_def step_token_def dotted_def decimal_small digit_char_def)
qed (simp_all add: nested_tree_def listed_tree_def eval_tree)

theorem extractFiles_dotted_paths_witness:
  "distinct_keys (listed_tree (7::nat))
   \<and> value_at (listed_tree (7::nat)) [Key ''items'', Index 1, Key ''doc''] = Some (JFile 7)
   \<and> ([Key ''items'', Index 1, Key ''doc''], 7) \<in> set (file_positions (listed_tree (7::nat)))
   \<and> files (extractFiles (listed_tree (7::nat)) ''variables'')
       = [\<lparr>entry_path = ''variables.items.1.doc'', entry_file = 7\<rparr>]"
proof -
  have wf: "distinct_keys (listed_tree (7::nat))"
    by (simp add: listed_tree_def)
  have at: "value_at (listed_tree (7::nat)) [Key ''items'', Index 1, Key ''doc''] = Some (JFile 7)"
    by (simp add: listed_tree_def)
  note t = extractFiles_dotted_paths[where v = "listed_tree (7::nat)" and f = 7]
  from t wf have "\<forall>steps f. (steps, f) \<in> set (file_positions (listed_tree (7::nat)))
      \<longleftrightarrow> value_at (listed_tree (7::nat)) steps = Some (JFile f)"
    by blast
  with at have "([Key ''items'', Index 1, Key ''doc''], 7) \<in> set (file_positions (listed_tree (7::nat)))"
    by blast
  moreover from t have "files (extractFiles (listed_tree (7::nat)) ''variables'')
       = [\<lparr>entry_path = ''variables.items.1.doc'', entry_file = 7\<rparr>]"
    by blast
  ultimately show ?thesis
    using wf at by blast
qed

subsection \<open>The multipart encoder\<close>

text \<open>
  Claim C7. For every query string, cleaned tree and list of file entries, the encoder
  sets the field \<open>query\<close> to the query string unmodified, the field \<open>variables\<close> to
  the JSON serialization of the cleaned tree, and emits exactly one binary part per
  file entry, keyed by the decimal string of the entry's index and holding the raw
  binary payload leaf.
\<close>

theorem createMultipartFormData_fields:
  "createMultipartFormData S (JStr query) cleanedTree fs =
     [(''query'', JStr query),
      (''variables'', JStr (S cleanedTree)),
      (''map'', JStr (S (map_value (build_map fs))))]
     @ map (\<lambda>i. (decimal i, JFile (entry_file (fs ! i)))) [0..<length fs]
   \<and> filter (\<lambda>(name, v). isFile v) (createMultipartFormData S (JStr query) cleanedTree fs)
       = map (\<lambda>i. (decimal i, JFile (entry_file (fs ! i)))) [0..<length fs]"
  by (simp add: createMultipartFormData_parts isFile_def filter_map comp_def)

subsection \<open>The middleware\<close>

text \<open>
  Claim C1, as the code has it. For every request whose variables contain a binary
  payload leaf, the middleware returns the request unmodified whenever the body is not
  a string, or \<open>JSON.parse\<close> of the body throws, or reading \<open>query\<close> from the parsed
  value throws (the body is the JSON text \<open>null\<close>). When the body parses to any other
  value that has no \<open>query\<close> field (an object without it, an array, a string, a number,
  a boolean) the request is transformed all the same, the \<open>query\<close> part being
  \<open>undefined\<close>. In none of these cases is an error raised. (With an upstream middleware
  chained in, the request meant is its output.)
\<close>

theorem middleware_pass_through_fallbacks:
  assumes "(case existingMiddleware of None \<Rightarrow> Inr req | Some m \<Rightarrow> m req) = Inr pr"
    and "hasFiles (variables pr)"
  shows "((\<forall>s. body pr \<noteq> BodyString s) \<longrightarrow>
            createFileUploadMiddleware rt existingMiddleware req = Inr pr)
       \<and> (\<forall>s e. body pr = BodyString s \<and> JSON_parse rt s = Inl e \<longrightarrow>
            createFileUploadMiddleware rt existingMiddleware req = Inr pr)
       \<and> (\<forall>s parsed. body pr = BodyString s \<and> JSON_parse rt s = Inr parsed
              \<and> (parsed = JNull \<or> parsed = JUndefined) \<longrightarrow>
            createFileUploadMiddleware rt existingMiddleware req = Inr pr)
       \<and> (\<forall>s parsed. body pr = BodyString s \<and> JSON_parse rt s = Inr parsed
              \<and> parsed \<noteq> JNull \<and> parsed \<noteq> JUndefined
              \<and> (\<forall>props. parsed = JObj props \<longrightarrow> map_of props ''query'' = None) \<longrightarrow>
            createFileUploadMiddleware rt existingMiddleware req
              = Inr (pr\<lparr>body := BodyFormData
                           (createMultipartFormData (JSON_stringify rt) JUndefined
                              (cleanedVariables (extractFiles (variables pr) ''variables''))
                              (files (extractFiles (variables pr) ''variables''))),
                        headers := strip_content_type (headers pr)\<rparr>))
       \<and> (\<exists>r. createFileUploadMiddleware rt existingMiddleware req = Inr r)"
proof -
  from assms(2) have nf: "\<not> falsy (variables pr)"
    by (auto simp: hasFiles_def split: if_splits)
  have mw: "createFileUploadMiddleware rt existingMiddleware req =
      (case body pr of
         BodyString s \<Rightarrow>
           (case (case JSON_parse rt s of Inl err \<Rightarrow> Inl err | Inr parsed \<Rightarrow> get_query parsed) of
              Inl err \<Rightarrow> Inr pr
            | Inr query \<Rightarrow>
                Inr (pr\<lparr>body := BodyFormData
                           (createMultipartFormData (JSON_stringify rt) query
                              (cleanedVariables (extractFiles (variables pr) ''variables''))
                              (files (extractFiles (variables pr) ''variables''))),
                        headers := strip_content_type (headers pr)\<rparr>))
       | _ \<Rightarrow> Inr pr)"
    using assms nf
    by (simp add: createFileUploadMiddleware_def Let_def split: body.split sum.split)
  have nq: "get_query parsed = Inr JUndefined"
    if "parsed \<noteq> JNull" "parsed \<noteq> JUndefined"
      "\<forall>props. parsed = JObj props \<longrightarrow> map_of props ''query'' = None"
    for parsed :: "'a jsval"
    using that by (cases parsed) simp_all
  show ?thesis
    unfolding mw by (auto split: body.splits sum.splits simp: nq)
qed

theorem middleware_pass_through_fallbacks_witness:
  "hasFiles (variables (upload_request BodyOther []))
   \<and> (\<forall>S. createFileUploadMiddleware \<lparr>JSON_parse = sample_parse, JSON_stringify = S\<rparr> None
            (upload_request BodyOther [])
          = Inr (upload_request BodyOther []))
   \<and> (sample_parse ''not json'' :: js_error + nat jsval) = Inl SyntaxError
   \<and> (\<forall>S. createFileUploadMiddleware \<lparr>JSON_parse = sample_parse, JSON_stringify = S\<rparr> None
            (upload_request (BodyString ''not json'') [])
          = Inr (upload_request (BodyString ''not json'') []))"
proof -
  have p: "(sample_parse ''not json'' :: js_error + nat jsval) = Inl SyntaxError"
    by (simp add: sample_parse_def sample_body_def)
  have b1: "\<forall>s. body (upload_request BodyOther []) \<noteq> BodyString s"
    by (simp add: upload_request_def)
  have b2: "body (upload_request (BodyString ''not json'') []) = BodyString ''not json''"
    by (simp add: upload_request_def)
  have 1: "createFileUploadMiddleware \<lparr>JSON_parse = sample_parse, JSON_stringify = S\<rparr> None
            (upload_request BodyOther []) = Inr (upload_request BodyOther [])" for S
    using middleware_pass_through_fallbacks[where existingMiddleware = None
               and req = "upload_request BodyOther []"
               and pr = "upload_request BodyOther []"
               and rt = "\<lparr>JSON_parse = sample_parse, JSON_stringify = S\<rparr>"] has_upload(1) b1
    by simp
  have 2: "createFileUploadMiddleware \<lparr>JSON_parse = sample_parse, JSON_stringify = S\<rparr> None
            (upload_request (BodyString ''not json'') [])
          = Inr (upload_request (BodyString ''not json'') [])" for S
    using middleware_pass_through_fallbacks[where existingMiddleware = None
               and req = "upload_request (BodyString ''not json'') []"
               and pr = "upload_request (BodyString ''not json'') []"
               and rt = "\<lparr>JSON_parse = sample_parse, JSON_stringify = S\<rparr>"] has_upload(1) b2 p
    by simp
  show ?thesis
    using 1 2 p has_upload(1) by simp
qed

text \<open>
  Claim C1 as stated fails where the body parses but has no \<open>query\<close> field: for the
  body \<open>{}\<close> the middleware does not return the request unmodified; it replaces the body
  by a multipart form whose \<open>query\<close> part is \<open>undefined\<close> and strips the content type.
\<close>

theorem missing_query_is_transformed:
  "hasFiles (variables (upload_request (BodyString ''{}'') [(''Content-Type'', ''application/json'')]))
   \<and> (sample_parse ''{}'' :: js_error + nat jsval) = Inr (JObj [])
   \<and> (\<forall>S. createFileUploadMiddleware \<lparr>JSON_parse = sample_parse, JSON_stringify = S\<rparr> None
            (upload_request (BodyString ''{}'') [(''Content-Type'', ''application/json'')])
          = Inr \<lparr>url = ''https://api.monday.com/v2'', http_method = ''POST'', headers = [],
                 body = BodyFormData
                   [(''query'', JUndefined),
                    (''variables'', JStr (S (JObj [(''file'', JNull)]))),
                    (''map'', JStr (S (JObj [(''0'', JArr [JStr ''variables.file''])]))),
                    (''0'', JFile 0)],
                 operationName = None, variables = JObj [(''file'', JFile 0)]\<rparr>)
   \<and> (\<forall>S. createFileUploadMiddleware \<lparr>JSON_parse = sample_parse, JSON_stringify = S\<rparr> None
            (upload_request (BodyString ''{}'') [(''Content-Type'', ''application/json'')])
          \<noteq> Inr (upload_request (BodyString ''{}'') [(''Content-Type'', ''application/json'')]))"
proof -
  have ev: "createFileUploadMiddleware \<lparr>JSON_parse = sample_parse, JSON_stringify = S\<rparr> None
            (upload_request (BodyString ''{}'') [(''Content-Type'', ''application/json'')])
          = Inr \<lparr>url = ''https://api.monday.com/v2'', http_method = ''POST'', headers = [],
                 body = BodyFormData
                   [(''query'', JUndefined),
                    (''variables'', JStr (S (JObj [(''file'', JNull)]))),
                    (''map'', JStr (S (JObj [(''0'', JArr [JStr ''variables.file''])]))),
                    (''0'', JFile 0)],
                 operationName = None, variables = JObj [(''file'', JFile 0)]\<rparr>" for S
    by (simp add: createFileUploadMiddleware_def sample_parse_def sample_body_def
          strip_content_type_filter lower_samples upload_request_def hasFiles_upload
          extract_upload encode_upload)
  show ?thesis
    using has_upload(1) ev
    by (simp add: sample_parse_def sample_body_def upload_request_def)
qed

text \<open>
  Claim C2 asks that every header whose name is \<open>content-type\<close> in any casing be removed
  from a transformed request. \<open>middleware/file-upload.ts\<close> does so (lemmas
  \<open>strip_content_type_complete\<close> and \<open>strip_content_type_casings\<close>). The earlier copy
  of the middleware deletes the two spellings \<open>Content-Type\<close> and \<open>content-type\<close> only:
  it transforms the request below and leaves its \<open>CONTENT-TYPE\<close> header in place.
\<close>

theorem copy_keeps_upper_case_content_type:
  "toLowerCase ''CONTENT-TYPE'' = ''content-type''
   \<and> (sample_parse sample_body :: js_error + nat jsval)
       = Inr (JObj [(''query'', JStr sample_query), (''variables'', JObj [(''file'', JObj [])])])
   \<and> (\<forall>S. createFileUploadMiddleware_copy \<lparr>JSON_parse = sample_parse, JSON_stringify = S\<rparr> None
            (upload_request (BodyString sample_body)
               [(''Content-Type'', ''application/json''), (''Authorization'', ''token''),
                (''CONTENT-TYPE'', ''text/plain'')])
          = Inr \<lparr>url = ''https://api.monday.com/v2'', http_method = ''POST'',
                 headers = [(''Authorization'', ''token''), (''CONTENT-TYPE'', ''text/plain'')],
                 body = BodyFormData
                   [(''query'', JStr sample_query),
                    (''variables'', JStr (S (JObj [(''file'', JNull)]))),
                    (''map'', JStr (S (JObj [(''0'', JArr [JStr ''variables.file''])]))),
                    (''0'', JFile 0)],
                 operationName = None, variables = JObj [(''file'', JFile 0)]\<rparr>)"
  by (simp add: createFileUploadMiddleware_copy_def sample_parse_def lower_samples
        delete_two_casings_def delete_key_def upload_request_def hasFiles_upload
        extract_upload encode_upload)

text \<open>
  Claim C8. When the middleware transforms a request, only the body and the headers
  differ from the request it received (the output of the upstream middleware, when one
  is chained in): the URL, the method, the operation name, the variables and every
  other field are unchanged, and the headers are the incoming ones, in their order and
  with their values, less those named \<open>content-type\<close> in any casing. The unchanged
  fields are unchanged in the pass-through state too.
\<close>

theorem middleware_frame:
  assumes "(case existingMiddleware of None \<Rightarrow> Inr req | Some m \<Rightarrow> m req) = Inr pr"
    and "createFileUploadMiddleware rt existingMiddleware req = Inr result"
  shows "url result = url pr \<and> http_method result = http_method pr
       \<and> operationName result = operationName pr \<and> variables result = variables pr
       \<and> request.more result = request.more pr
       \<and> filter non_content_type (headers result) = filter non_content_type (headers pr)
       \<and> (result \<noteq> pr \<longrightarrow>
            (\<exists>formData. result = pr\<lparr>body := BodyFormData formData,
                                     headers := filter non_content_type (headers pr)\<rparr>))"
  using assms
  by (auto simp: createFileUploadMiddleware_def Let_def strip_content_type_filter
           split: if_splits body.splits sum.splits)

theorem middleware_frame_witness:
  "\<forall>S. \<exists>result.
      createFileUploadMiddleware \<lparr>JSON_parse = sample_parse, JSON_stringify = S\<rparr> None
        (upload_request (BodyString sample_body)
           [(''Content-Type'', ''application/json''), (''Authorization'', ''token'')])
        = Inr result
      \<and> result \<noteq> upload_request (BodyString sample_body)
           [(''Content-Type'', ''application/json''), (''Authorization'', ''token'')]
      \<and> url result = ''https://api.monday.com/v2'' \<and> http_method result = ''POST''
      \<and> variables result = JObj [(''file'', JFile 0)]
      \<and> headers result = [(''Authorization'', ''token'')]"
proof
  fix S
  let ?r = "upload_request (BodyString sample_body)
           [(''Content-Type'', ''application/json''), (''Authorization'', ''token'')]"
  let ?rt = "\<lparr>JSON_parse = sample_parse, JSON_stringify = S\<rparr> :: nat runtime"
  obtain result where ev: "createFileUploadMiddleware ?rt None ?r = Inr result"
    and body: "body result \<noteq> BodyString sample_body"
    by (simp add: createFileUploadMiddleware_def sample_parse_def upload_request_def hasFiles_upload
          Let_def)
  from body have ne: "result \<noteq> ?r"
    by (auto simp: upload_request_def)
  from middleware_frame[where existingMiddleware = None and req = ?r and pr = ?r and rt = ?rt
            and result = result] ev ne
  have "url result = url ?r \<and> http_method result = http_method ?r \<and> variables result = variables ?r
      \<and> headers result = filter non_content_type (headers ?r)"
    by auto
  with ev ne show "\<exists>result. createFileUploadMiddleware ?rt None ?r = Inr result
      \<and> result \<noteq> ?r
      \<and> url result = ''https://api.monday.com/v2'' \<and> http_method result = ''POST''
      \<and> variables result = JObj [(''file'', JFile 0)]
      \<and> headers result = [(''Authorization'', ''token'')]"
    by (auto simp: upload_request_def toLowerCase_def lower_char_def)
qed

subsection \<open>The client\<close>

text \<open>
  Claim C9. The \<open>ApiClient\<close> constructor throws exactly when the supplied \<open>apiVersion\<close>
  is neither the literal \<open>dev\<close> nor a string of the pattern \<open>\d{4}-(01|04|07|10)\<close>; the
  error thrown carries the fixed message; for every valid version the constructor
  returns a client with that default version. The check is the constructor's first
  step: a throwing call creates no client. (\<open>getApiEndpoint\<close> and \<open>getSdk\<close> are taken
  to return.)
\<close>

theorem constructor_version_check:
  "(v = ''dev'' \<or> matches_version_pattern v \<longrightarrow>
      (\<exists>client. ApiClient_constructor env (config\<lparr>apiVersion := Some v\<rparr>) = Inr client
         \<and> defaultApiVersion client = v))
   \<and> (\<not> (v = ''dev'' \<or> matches_version_pattern v) \<longrightarrow>
      ApiClient_constructor env (config\<lparr>apiVersion := Some v\<rparr>)
        = Inl (Error ''Invalid API version format. Expected format is 'yyyy-mm' with month as one of '01', '04', '07', or '10'.''))"
  by (simp add: ApiClient_constructor_def isValidApiVersion_iff invalid_version_message_def
        Let_def)

theorem constructor_version_check_witness:
  "\<forall>env config.
     (\<exists>client. ApiClient_constructor env (config\<lparr>apiVersion := Some ''2024-10''\<rparr>) = Inr client
        \<and> defaultApiVersion client = ''2024-10'')
     \<and> (\<exists>client. ApiClient_constructor env (config\<lparr>apiVersion := Some ''dev''\<rparr>) = Inr client
        \<and> defaultApiVersion client = ''dev'')
     \<and> ApiClient_constructor env (config\<lparr>apiVersion := Some ''2024-03''\<rparr>)
        = Inl (Error ''Invalid API version format. Expected format is 'yyyy-mm' with month as one of '01', '04', '07', or '10'.'')
     \<and> ApiClient_constructor env (config\<lparr>apiVersion := Some ''2024-01-01''\<rparr>)
        = Inl (Error ''Invalid API version format. Expected format is 'yyyy-mm' with month as one of '01', '04', '07', or '10'.'')"
proof (intro allI conjI)
  fix env :: environment and config :: ApiClientConfig
  have ok: "matches_version_pattern ''2024-10''"
    by (simp add: matches_version_pattern_normal is_digit_def)
  have bad: "\<not> (''2024-03'' = ''dev'' \<or> matches_version_pattern ''2024-03'')"
      "\<not> (''2024-01-01'' = ''dev'' \<or> matches_version_pattern ''2024-01-01'')"
    by (simp_all add: matches_version_pattern_normal is_digit_def)
  show "\<exists>client. ApiClient_constructor env (config\<lparr>apiVersion := Some ''2024-10''\<rparr>) = Inr client
        \<and> defaultApiVersion client = ''2024-10''"
    by (rule mp[OF conjunct1[OF constructor_version_check] disjI2[OF ok]])
  show "\<exists>client. ApiClient_constructor env (config\<lparr>apiVersion := Some ''dev''\<rparr>) = Inr client
        \<and> defaultApiVersion client = ''dev''"
    by (rule mp[OF conjunct1[OF constructor_version_check] disjI1[OF refl]])
  show "ApiClient_constructor env (config\<lparr>apiVersion := Some ''2024-03''\<rparr>)
        = Inl (Error ''Invalid API version format. Expected format is 'yyyy-mm' with month as one of '01', '04', '07', or '10'.'')"
    by (rule mp[OF conjunct2[OF constructor_version_check] bad(1)])
  show "ApiClient_constructor env (config\<lparr>apiVersion := Some ''2024-01-01''\<rparr>)
        = Inl (Error ''Invalid API version format. Expected format is 'yyyy-mm' with month as one of '01', '04', '07', or '10'.'')"
    by (rule mp[OF conjunct2[OF constructor_version_check] bad(2)])
qed

text \<open>
  Claim C10. A call to \<open>request\<close> or \<open>rawRequest\<close> with an options object is rejected
  by the validation, with nothing done before (no client created, no timer armed, the
  executor not called), whenever \<open>options.timeout\<close> is zero, negative or above 60000,
  or \<open>options.versionOverride\<close> is the empty string. A timeout raises no issue exactly
  when it is absent or in \<open>(0, 60000]\<close>, an absent \<open>versionOverride\<close> raises none, and
  options with such a timeout and no \<open>versionOverride\<close> are accepted and the request
  goes on to create its client.
\<close>

theorem request_options_validation:
  "((\<exists>t. timeout opts = Some t \<and> (t \<le> 0 \<or> 60000 < t)) \<or> versionOverride opts = Some [] \<longrightarrow>
      (\<exists>issues. issues \<noteq> []
         \<and> ApiClient_request env client_request self query vars (Some opts)
             = ([], Inl (ZodError issues))
         \<and> ApiClient_rawRequest env client_rawRequest self query vars (Some opts)
             = ([], Inl (ZodError issues))))
   \<and> (timeout_issues t = [] \<longleftrightarrow> t = None \<or> (\<exists>x. t = Some x \<and> 0 < x \<and> x \<le> 60000))
   \<and> versionOverride_issues None = []
   \<and> ((timeout opts = None \<or> (\<exists>x. timeout opts = Some x \<and> 0 < x \<and> x \<le> 60000))
        \<and> versionOverride opts = None \<longrightarrow>
      requestOptionsSchema_parse opts = Inr opts
      \<and> fst (ApiClient_request env client_request self query vars (Some opts)) \<noteq> []
      \<and> fst (ApiClient_rawRequest env client_rawRequest self query vars (Some opts)) \<noteq> [])"
proof (intro conjI impI)
  assume bad: "(\<exists>t. timeout opts = Some t \<and> (t \<le> 0 \<or> 60000 < t)) \<or> versionOverride opts = Some []"
  let ?issues = "versionOverride_issues (versionOverride opts) @ timeout_issues (timeout opts)"
  from bad have ne: "?issues \<noteq> []"
    by (auto simp: versionOverride_issues_def timeout_issues_def)
  then have "requestOptionsSchema_parse opts = Inl (ZodError ?issues)"
    by (simp add: requestOptionsSchema_parse_def Let_def)
  then have "ApiClient_request env client_request self query vars (Some opts)
             = ([], Inl (ZodError ?issues))
         \<and> ApiClient_rawRequest env client_rawRequest self query vars (Some opts)
             = ([], Inl (ZodError ?issues))"
    by (simp add: ApiClient_request_def ApiClient_rawRequest_def executeRequest_def)
  with ne show "\<exists>issues. issues \<noteq> []
         \<and> ApiClient_request env client_request self query vars (Some opts)
             = ([], Inl (ZodError issues))
         \<and> ApiClient_rawRequest env client_rawRequest self query vars (Some opts)
             = ([], Inl (ZodError issues))"
    by blast
next
  show "timeout_issues t = [] \<longleftrightarrow> t = None \<or> (\<exists>x. t = Some x \<and> 0 < x \<and> x \<le> 60000)"
    by (cases t) (auto simp: timeout_issues_def)
next
  show "versionOverride_issues None = []"
    by (simp add: versionOverride_issues_def)
next
  assume ok: "(timeout opts = None \<or> (\<exists>x. timeout opts = Some x \<and> 0 < x \<and> x \<le> 60000))
        \<and> versionOverride opts = None"
  then show p: "requestOptionsSchema_parse opts = Inr opts"
    by (auto simp: requestOptionsSchema_parse_def Let_def versionOverride_issues_def
          timeout_issues_def)
  show "fst (ApiClient_request env client_request self query vars (Some opts)) \<noteq> []"
    by (simp add: ApiClient_request_def executeRequest_def p split_beta Let_def)
  show "fst (ApiClient_rawRequest env client_rawRequest self query vars (Some opts)) \<noteq> []"
    by (simp add: ApiClient_rawRequest_def executeRequest_def p split_beta Let_def)
qed

theorem request_options_validation_witness:
  "\<forall>env self query (vars :: nat jsval)
      (client_request :: GraphQLClient \<Rightarrow> string \<Rightarrow> nat jsval \<Rightarrow> bool \<Rightarrow> js_error + unit)
      (client_rawRequest :: GraphQLClient \<Rightarrow> string \<Rightarrow> nat jsval \<Rightarrow> bool \<Rightarrow> js_error + unit).
     (\<exists>issues. issues \<noteq> []
        \<and> ApiClient_request env client_request self query vars
            (Some \<lparr>versionOverride = None, timeout = Some 0\<rparr>) = ([], Inl (ZodError issues))
        \<and> ApiClient_rawRequest env client_rawRequest self query vars
            (Some \<lparr>versionOverride = None, timeout = Some 0\<rparr>) = ([], Inl (ZodError issues)))
     \<and> (\<exists>issues. issues \<noteq> []
        \<and> ApiClient_request env client_request self query vars
            (Some \<lparr>versionOverride = None, timeout = Some 60001\<rparr>) = ([], Inl (ZodError issues))
        \<and> ApiClient_rawRequest env client_rawRequest self query vars
            (Some \<lparr>versionOverride = None, timeout = Some 60001\<rparr>) = ([], Inl (ZodError issues)))
     \<and> (\<exists>issues. issues \<noteq> []
        \<and> ApiClient_request env client_request self query vars
            (Some \<lparr>versionOverride = Some [], timeout = None\<rparr>) = ([], Inl (ZodError issues))
        \<and> ApiClient_rawRequest env client_rawRequest self query vars
            (Some \<lparr>versionOverride = Some [], timeout = None\<rparr>) = ([], Inl (ZodError issues)))
     \<and> requestOptionsSchema_parse \<lparr>versionOverride = None, timeout = Some 60000\<rparr>
         = Inr \<lparr>versionOverride = None, timeout = Some 60000\<rparr>
     \<and> requestOptionsSchema_parse \<lparr>versionOverride = None, timeout = None\<rparr>
         = Inr \<lparr>versionOverride = None, timeout = None\<rparr>"
proof (intro allI conjI)
  fix env self query and vars :: "nat jsval"
    and client_request client_rawRequest ::
      "GraphQLClient \<Rightarrow> string \<Rightarrow> nat jsval \<Rightarrow> bool \<Rightarrow> js_error + unit"
  note v = request_options_validation[where env = env and self = self and query = query
      and vars = vars and client_request = client_request
      and client_rawRequest = client_rawRequest]
  show "\<exists>issues. issues \<noteq> []
        \<and> ApiClient_request env client_request self query vars
            (Some \<lparr>versionOverride = None, timeout = Some 0\<rparr>) = ([], Inl (ZodError issues))
        \<and> ApiClient_rawRequest env client_rawRequest self query vars
            (Some \<lparr>versionOverride = None, timeout = Some 0\<rparr>) = ([], Inl (ZodError issues))"
    by (rule mp[OF conjunct1[OF v]]) simp
  show "\<exists>issues. issues \<noteq> []
        \<and> ApiClient_request env client_request self query vars
            (Some \<lparr>versionOverride = None, timeout = Some 60001\<rparr>) = ([], Inl (ZodError issues))
        \<and> ApiClient_rawRequest env client_rawRequest self query vars
            (Some \<lparr>versionOverride = None, timeout = Some 60001\<rparr>) = ([], Inl (ZodError issues))"
    by (rule mp[OF conjunct1[OF v]]) simp
  show "\<exists>issues. issues \<noteq> []
        \<and> ApiClient_request env client_request self query vars
            (Some \<lparr>versionOverride = Some [], timeout = None\<rparr>) = ([], Inl (ZodError issues))
        \<and> ApiClient_rawRequest env client_rawRequest self query vars
            (Some \<lparr>versionOverride = Some [], timeout = None\<rparr>) = ([], Inl (ZodError issues))"
    by (rule mp[OF conjunct1[OF v]]) simp
  have acc: "(timeout opts = None \<or> (\<exists>x. timeout opts = Some x \<and> 0 < x \<and> x \<le> 60000))
        \<and> versionOverride opts = None \<Longrightarrow> requestOptionsSchema_parse opts = Inr opts" for opts
    by (rule conjunct1[OF mp[OF conjunct2[OF conjunct2[OF conjunct2[OF v]]]]])
  show "requestOptionsSchema_parse \<lparr>versionOverride = None, timeout = Some 60000\<rparr>
         = Inr \<lparr>versionOverride = None, timeout = Some 60000\<rparr>"
    by (rule acc) simp
  show "requestOptionsSchema_parse \<lparr>versionOverride = None, timeout = None\<rparr>
         = Inr \<lparr>versionOverride = None, timeout = None\<rparr>"
    by (rule acc) simp
qed

end
